theory Spec2Isabelle
  imports Main "HOL-Library.Word" "HOL-Library.Multiset"
begin

section \<open>Python text and bytes\<close>

text \<open>
  The extractor works on two kinds of sequences. \<open>source_bytes\<close> is a Python
  \<^verbatim>\<open>bytes\<close> object: a list of 8-bit words. Everything obtained from it by
  \<^verbatim>\<open>.decode("utf-8")\<close> is a Python \<^verbatim>\<open>str\<close>: a list of Unicode code points
  (\<^verbatim>\<open>len\<close>, slicing and indexing count code points). Node type tags, symbol kinds,
  language tags and field names are fixed ASCII identifiers and are kept as HOL strings.
\<close>

type_synonym byte = "8 word"
type_synonym str = "nat list"

text \<open>An ASCII literal as a \<^verbatim>\<open>str\<close>, and as a \<^verbatim>\<open>bytes\<close> literal.\<close>

definition str :: "string \<Rightarrow> str" where
  "str s = map of_char s"

definition bytes :: "string \<Rightarrow> byte list" where
  "bytes s = map of_char s"

text \<open>
  The exceptions that can leave the extractor: a strict UTF-8 codec error in either
  direction, and a failed dictionary subscript.
\<close>

datatype error = UnicodeDecodeError | UnicodeEncodeError | KeyError

text \<open>\<^verbatim>\<open>source_bytes[a:b]\<close> for non-negative offsets: out-of-range bounds are clamped.\<close>

definition slice :: "'a list \<Rightarrow> nat \<Rightarrow> nat \<Rightarrow> 'a list" where
  "slice xs a b = take (b - a) (drop a xs)"

subsection \<open>The strict UTF-8 codec\<close>

definition is_continuation :: "byte \<Rightarrow> bool" where
  "is_continuation b = (0x80 \<le> b \<and> b \<le> 0xBF)"

text \<open>
  The code points of a byte sequence, or \<open>None\<close> if it is not well-formed UTF-8:
  overlong forms, surrogates, values above U+10FFFF, stray continuation bytes and
  truncated sequences are all rejected.
\<close>

fun utf8_decode :: "byte list \<Rightarrow> str option" where
  "utf8_decode [] = Some []"
| "utf8_decode (b # bs) =
     (if b < 0x80 then map_option (Cons (unat b)) (utf8_decode bs)
      else if 0xC2 \<le> b \<and> b \<le> 0xDF then
        (case bs of
           b1 # r \<Rightarrow>
             if is_continuation b1
             then map_option (Cons ((unat b - 0xC0) * 64 + (unat b1 - 0x80))) (utf8_decode r)
             else None
         | _ \<Rightarrow> None)
      else if 0xE0 \<le> b \<and> b \<le> 0xEF then
        (case bs of
           b1 # b2 # r \<Rightarrow>
             if (if b = 0xE0 then 0xA0 \<le> b1 \<and> b1 \<le> 0xBF
                 else if b = 0xED then 0x80 \<le> b1 \<and> b1 \<le> 0x9F
                 else is_continuation b1) \<and> is_continuation b2
             then map_option
                    (Cons ((unat b - 0xE0) * 4096 + (unat b1 - 0x80) * 64 + (unat b2 - 0x80)))
                    (utf8_decode r)
             else None
         | _ \<Rightarrow> None)
      else if 0xF0 \<le> b \<and> b \<le> 0xF4 then
        (case bs of
           b1 # b2 # b3 # r \<Rightarrow>
             if (if b = 0xF0 then 0x90 \<le> b1 \<and> b1 \<le> 0xBF
                 else if b = 0xF4 then 0x80 \<le> b1 \<and> b1 \<le> 0x8F
                 else is_continuation b1) \<and> is_continuation b2 \<and> is_continuation b3
             then map_option
                    (Cons ((unat b - 0xF0) * 262144 + (unat b1 - 0x80) * 4096
                            + (unat b2 - 0x80) * 64 + (unat b3 - 0x80)))
                    (utf8_decode r)
             else None
         | _ \<Rightarrow> None)
      else None)"

text \<open>
  The UTF-8 bytes of a string, or \<open>None\<close> if it holds a surrogate (or a value above
  U+10FFFF, which is not a character of any Python string).
\<close>

fun utf8_encode :: "str \<Rightarrow> byte list option" where
  "utf8_encode [] = Some []"
| "utf8_encode (c # cs) =
     (if c < 0x80 then map_option (append [of_nat c]) (utf8_encode cs)
      else if c < 0x800 then
        map_option (append [of_nat (0xC0 + c div 64), of_nat (0x80 + c mod 64)])
          (utf8_encode cs)
      else if c < 0x10000 then
        (if 0xD800 \<le> c \<and> c \<le> 0xDFFF then None
         else map_option (append [of_nat (0xE0 + c div 4096), of_nat (0x80 + (c div 64) mod 64),
                                  of_nat (0x80 + c mod 64)]) (utf8_encode cs))
      else if c < 0x110000 then
        map_option (append [of_nat (0xF0 + c div 262144), of_nat (0x80 + (c div 4096) mod 64),
                            of_nat (0x80 + (c div 64) mod 64), of_nat (0x80 + c mod 64)])
          (utf8_encode cs)
      else None)"

text \<open>
  \<^verbatim>\<open>bytes.decode("utf-8")\<close> and \<^verbatim>\<open>str.encode("utf-8")\<close> with the default
  \<^verbatim>\<open>errors="strict"\<close>: ill-formed input raises, nothing is replaced.
\<close>

definition decode :: "byte list \<Rightarrow> error + str" where
  "decode bs = (case utf8_decode bs of None \<Rightarrow> Inl UnicodeDecodeError | Some s \<Rightarrow> Inr s)"

definition encode :: "str \<Rightarrow> error + byte list" where
  "encode s = (case utf8_encode s of None \<Rightarrow> Inl UnicodeEncodeError | Some bs \<Rightarrow> Inr bs)"

text \<open>The idiom \<^verbatim>\<open>source_bytes[a:b].decode("utf-8")\<close> of the extractor.\<close>

definition decode_range :: "byte list \<Rightarrow> nat \<Rightarrow> nat \<Rightarrow> error + str" where
  "decode_range source_bytes a b = decode (slice source_bytes a b)"

subsection \<open>String methods\<close>

text \<open>
  \<^verbatim>\<open>str.isspace\<close> on one code point: the characters \<^verbatim>\<open>str.strip()\<close> removes.
\<close>

definition isspace :: "nat \<Rightarrow> bool" where
  "isspace c = ((0x09 \<le> c \<and> c \<le> 0x0D) \<or> (0x1C \<le> c \<and> c \<le> 0x20) \<or> c = 0x85 \<or> c = 0xA0
      \<or> c = 0x1680 \<or> (0x2000 \<le> c \<and> c \<le> 0x200A) \<or> c = 0x2028 \<or> c = 0x2029
      \<or> c = 0x202F \<or> c = 0x205F \<or> c = 0x3000)"

definition rstrip_where :: "('a \<Rightarrow> bool) \<Rightarrow> 'a list \<Rightarrow> 'a list" where
  "rstrip_where P s = rev (dropWhile P (rev s))"

definition strip :: "str \<Rightarrow> str" where
  "strip s = rstrip_where isspace (dropWhile isspace s)"

text \<open>\<^verbatim>\<open>s.rstrip(chars)\<close>: trailing characters that occur in \<open>chars\<close> are removed.\<close>

definition rstrip :: "str \<Rightarrow> str \<Rightarrow> str" where
  "rstrip s chars = rstrip_where (\<lambda>c. c \<in> set chars) s"

definition startswith :: "str \<Rightarrow> str \<Rightarrow> bool" where
  "startswith s p = (take (length p) s = p)"

definition endswith :: "str \<Rightarrow> str \<Rightarrow> bool" where
  "endswith s p = (length p \<le> length s \<and> drop (length s - length p) s = p)"

text \<open>\<^verbatim>\<open>s[a:-b]\<close> and \<^verbatim>\<open>s[:-b]\<close> for literal \<open>a\<close>, \<open>b\<close>; an empty range gives the empty string.\<close>

definition slice_from_to_end :: "str \<Rightarrow> nat \<Rightarrow> nat \<Rightarrow> str" where
  "slice_from_to_end s a b = take (length s - b - a) (drop a s)"

text \<open>\<^verbatim>\<open>s.split("\n")\<close>: always at least one piece.\<close>

fun split_lines :: "str \<Rightarrow> str list" where
  "split_lines [] = [[]]"
| "split_lines (c # cs) =
     (if c = 0x0A then [] # split_lines cs
      else (case split_lines cs of [] \<Rightarrow> [[c]] | l # ls \<Rightarrow> (c # l) # ls))"

text \<open>\<^verbatim>\<open>sep.join(parts)\<close>.\<close>

fun join :: "str \<Rightarrow> str list \<Rightarrow> str" where
  "join sep [] = []"
| "join sep [x] = x"
| "join sep (x # y # r) = x @ sep @ join sep (y # r)"

text \<open>\<^verbatim>\<open>s.replace(old, new)\<close> where both arguments are single characters.\<close>

definition replace :: "str \<Rightarrow> nat \<Rightarrow> nat \<Rightarrow> str" where
  "replace s old new = map (\<lambda>c. if c = old then new else c) s"

text \<open>
  \<^verbatim>\<open>str.isupper\<close> depends on the Unicode character database, which is data of the
  Python runtime and not of this repository; it is a parameter. \<open>is_upper\<close> is the
  Uppercase property, \<open>is_lower\<close> stands for "Lowercase or titlecase".
\<close>

record unicode_db =
  is_upper :: "nat \<Rightarrow> bool"
  is_lower :: "nat \<Rightarrow> bool"

text \<open>
  True if no cased character of the string is lower case and there is at least one
  upper-case character.
\<close>

definition isupper :: "unicode_db \<Rightarrow> str \<Rightarrow> bool" where
  "isupper db s = (\<not> list_ex (is_lower db) s \<and> list_ex (is_upper db) s)"

text \<open>The database restricted to the ASCII letters, for running concrete inputs.\<close>

definition ascii_db :: unicode_db where
  "ascii_db = \<lparr> is_upper = (\<lambda>c. 0x41 \<le> c \<and> c \<le> 0x5A), is_lower = (\<lambda>c. 0x61 \<le> c \<and> c \<le> 0x7A) \<rparr>"


section \<open>Data model\<close>

text \<open>
  \<^verbatim>\<open>Symbol\<close> (symbols.py). The field \<^verbatim>\<open>id\<close> is named \<open>symbol_id\<close> and the field
  \<^verbatim>\<open>keywords\<close> is named \<open>search_keywords\<close>; lines and byte positions are non-negative.
\<close>

record symbol =
  symbol_id :: str
  "file" :: str
  name :: str
  qualified_name :: str
  kind :: string
  language :: string
  signature :: str
  docstring :: str
  summary :: str
  decorators :: "str list"
  search_keywords :: "str list"
  parent :: "str option"
  line :: nat
  end_line :: nat
  byte_offset :: nat
  byte_length :: nat

text \<open>\<^verbatim>\<open>slugify\<close> and \<^verbatim>\<open>make_symbol_id\<close> (symbols.py).\<close>

definition slugify :: "str \<Rightarrow> str" where
  "slugify text = replace (replace text 0x2F 0x2D) 0x2E 0x2D"

definition make_symbol_id :: "str \<Rightarrow> str \<Rightarrow> str" where
  "make_symbol_id file_path qualified_name' = slugify file_path @ str ''::'' @ qualified_name'"

text \<open>\<^verbatim>\<open>LanguageSpec\<close> (languages.py); the dictionaries are finite maps.\<close>

record language_spec =
  ts_language :: string
  symbol_node_types :: "string \<rightharpoonup> string"
  name_fields :: "string \<rightharpoonup> string"
  param_fields :: "string \<rightharpoonup> string"
  return_type_fields :: "string \<rightharpoonup> string"
  docstring_strategy :: string
  decorator_node_type :: "string option"
  container_node_types :: "string list"
  constant_patterns :: "string list"
  type_patterns :: "string list"

text \<open>
  A tree-sitter node, as far as the extractor reads it: the type tag, the field name under
  which the node hangs in its parent (if any), whether it is a named node, the error flag
  of its subtree, the byte range, the start and end points (row, column) and the children
  in document order. The parser that produces the tree is outside the repository.
\<close>

datatype node =
  Node (ntype: string) (field_name: "string option") (is_named: bool) (has_error: bool)
       (start_byte: nat) (end_byte: nat) (start_point: "nat \<times> nat") (end_point: "nat \<times> nat")
       (children: "node list")

definition child_by_field_name :: "node \<Rightarrow> string \<Rightarrow> node option" where
  "child_by_field_name n f = find (\<lambda>c. field_name c = Some f) (children n)"

definition child_count :: "node \<Rightarrow> nat" where
  "child_count n = length (children n)"

definition node_text :: "byte list \<Rightarrow> node \<Rightarrow> error + str" where
  "node_text source_bytes n = decode_range source_bytes (start_byte n) (end_byte n)"

section \<open>The language registry (languages.py)\<close>

definition PYTHON_SPEC :: language_spec where
  "PYTHON_SPEC = \<lparr>
     ts_language = ''python'',
     symbol_node_types = map_of [(''function_definition'', ''function''),
                                 (''class_definition'', ''class'')],
     name_fields = map_of [(''function_definition'', ''name''), (''class_definition'', ''name'')],
     param_fields = map_of [(''function_definition'', ''parameters'')],
     return_type_fields = map_of [(''function_definition'', ''return_type'')],
     docstring_strategy = ''next_sibling_string'',
     decorator_node_type = Some ''decorator'',
     container_node_types = [''class_definition''],
     constant_patterns = [''assignment''],
     type_patterns = [''type_alias_statement''] \<rparr>"

definition JAVASCRIPT_SPEC :: language_spec where
  "JAVASCRIPT_SPEC = \<lparr>
     ts_language = ''javascript'',
     symbol_node_types = map_of [(''function_declaration'', ''function''),
                                 (''class_declaration'', ''class''),
                                 (''method_definition'', ''method''),
                                 (''arrow_function'', ''function''),
                                 (''generator_function_declaration'', ''function'')],
     name_fields = map_of [(''function_declaration'', ''name''), (''class_declaration'', ''name''),
                           (''method_definition'', ''name'')],
     param_fields = map_of [(''function_declaration'', ''parameters''),
                            (''method_definition'', ''parameters''),
                            (''arrow_function'', ''parameters'')],
     return_type_fields = map_of [],
     docstring_strategy = ''preceding_comment'',
     decorator_node_type = None,
     container_node_types = [''class_declaration'', ''class''],
     constant_patterns = [''lexical_declaration''],
     type_patterns = [] \<rparr>"

definition TYPESCRIPT_SPEC :: language_spec where
  "TYPESCRIPT_SPEC = \<lparr>
     ts_language = ''typescript'',
     symbol_node_types = map_of [(''function_declaration'', ''function''),
                                 (''class_declaration'', ''class''),
                                 (''method_definition'', ''method''),
                                 (''arrow_function'', ''function''),
                                 (''interface_declaration'', ''type''),
                                 (''type_alias_declaration'', ''type''),
                                 (''enum_declaration'', ''type'')],
     name_fields = map_of [(''function_declaration'', ''name''), (''class_declaration'', ''name''),
                           (''method_definition'', ''name''), (''interface_declaration'', ''name''),
                           (''type_alias_declaration'', ''name''), (''enum_declaration'', ''name'')],
     param_fields = map_of [(''function_declaration'', ''parameters''),
                            (''method_definition'', ''parameters''),
                            (''arrow_function'', ''parameters'')],
     return_type_fields = map_of [(''function_declaration'', ''return_type''),
                                  (''method_definition'', ''return_type''),
                                  (''arrow_function'', ''return_type'')],
     docstring_strategy = ''preceding_comment'',
     decorator_node_type = Some ''decorator'',
     container_node_types = [''class_declaration'', ''class''],
     constant_patterns = [''lexical_declaration''],
     type_patterns = [''interface_declaration'', ''type_alias_declaration'',
                      ''enum_declaration''] \<rparr>"

definition GO_SPEC :: language_spec where
  "GO_SPEC = \<lparr>
     ts_language = ''go'',
     symbol_node_types = map_of [(''function_declaration'', ''function''),
                                 (''method_declaration'', ''method''),
                                 (''type_declaration'', ''type'')],
     name_fields = map_of [(''function_declaration'', ''name''), (''method_declaration'', ''name''),
                           (''type_declaration'', ''name'')],
     param_fields = map_of [(''function_declaration'', ''parameters''),
                            (''method_declaration'', ''parameters'')],
     return_type_fields = map_of [(''function_declaration'', ''result''),
                                  (''method_declaration'', ''result'')],
     docstring_strategy = ''preceding_comment'',
     decorator_node_type = None,
     container_node_types = [],
     constant_patterns = [''const_declaration''],
     type_patterns = [''type_declaration''] \<rparr>"

definition RUST_SPEC :: language_spec where
  "RUST_SPEC = \<lparr>
     ts_language = ''rust'',
     symbol_node_types = map_of [(''function_item'', ''function''), (''struct_item'', ''type''),
                                 (''enum_item'', ''type''), (''trait_item'', ''type''),
                                 (''impl_item'', ''class''), (''type_item'', ''type'')],
     name_fields = map_of [(''function_item'', ''name''), (''struct_item'', ''name''),
                           (''enum_item'', ''name''), (''trait_item'', ''name''),
                           (''type_item'', ''name'')],
     param_fields = map_of [(''function_item'', ''parameters'')],
     return_type_fields = map_of [(''function_item'', ''return_type'')],
     docstring_strategy = ''preceding_comment'',
     decorator_node_type = Some ''attribute_item'',
     container_node_types = [''impl_item'', ''trait_item''],
     constant_patterns = [''const_item'', ''static_item''],
     type_patterns = [''struct_item'', ''enum_item'', ''trait_item'', ''type_item''] \<rparr>"

definition JAVA_SPEC :: language_spec where
  "JAVA_SPEC = \<lparr>
     ts_language = ''java'',
     symbol_node_types = map_of [(''method_declaration'', ''method''),
                                 (''constructor_declaration'', ''method''),
                                 (''class_declaration'', ''class''),
                                 (''interface_declaration'', ''type''),
                                 (''enum_declaration'', ''type'')],
     name_fields = map_of [(''method_declaration'', ''name''),
                           (''constructor_declaration'', ''name''),
                           (''class_declaration'', ''name''),
                           (''interface_declaration'', ''name''),
                           (''enum_declaration'', ''name'')],
     param_fields = map_of [(''method_declaration'', ''parameters''),
                            (''constructor_declaration'', ''parameters'')],
     return_type_fields = map_of [(''method_declaration'', ''type'')],
     docstring_strategy = ''preceding_comment'',
     decorator_node_type = Some ''marker_annotation'',
     container_node_types = [''class_declaration'', ''interface_declaration'',
                             ''enum_declaration''],
     constant_patterns = [''field_declaration''],
     type_patterns = [''interface_declaration'', ''enum_declaration''] \<rparr>"

definition LANGUAGE_REGISTRY :: "string \<rightharpoonup> language_spec" where
  "LANGUAGE_REGISTRY = map_of [(''python'', PYTHON_SPEC), (''javascript'', JAVASCRIPT_SPEC),
     (''typescript'', TYPESCRIPT_SPEC), (''go'', GO_SPEC), (''rust'', RUST_SPEC),
     (''java'', JAVA_SPEC)]"

section \<open>Extraction strategies (extractor.py)\<close>

text \<open>
  Every function that decodes a byte range returns \<open>Inl\<close> where the Python raises.
  An \<^verbatim>\<open>Optional\<close> result is an \<open>option\<close> inside \<open>Inr\<close>.
\<close>

definition map_result :: "('a \<Rightarrow> 'b) \<Rightarrow> error + 'a \<Rightarrow> error + 'b" where
  "map_result f r = (case r of Inl e \<Rightarrow> Inl e | Inr x \<Rightarrow> Inr (f x))"

text \<open>
  The loop of \<^verbatim>\<open>_extract_name\<close> over the children of a Go \<^verbatim>\<open>type_declaration\<close>:
  the first \<^verbatim>\<open>type_spec\<close> child that has a \<^verbatim>\<open>name\<close> field gives the name.
\<close>

fun type_spec_name :: "node list \<Rightarrow> byte list \<Rightarrow> error + str option" where
  "type_spec_name [] source_bytes = Inr None"
| "type_spec_name (child # rest) source_bytes =
     (if ntype child = ''type_spec'' then
        (case child_by_field_name child ''name'' of
           Some name_node \<Rightarrow> map_result Some (node_text source_bytes name_node)
         | None \<Rightarrow> type_spec_name rest source_bytes)
      else type_spec_name rest source_bytes)"

definition extract_name :: "node \<Rightarrow> language_spec \<Rightarrow> byte list \<Rightarrow> error + str option" where
  "extract_name n spec source_bytes =
     (if ntype n = ''arrow_function'' then Inr None
      else if ntype n = ''type_declaration'' then type_spec_name (children n) source_bytes
      else (case name_fields spec (ntype n) of
              None \<Rightarrow> Inr None
            | Some field \<Rightarrow>
                (case child_by_field_name n field of
                   Some name_node \<Rightarrow> map_result Some (node_text source_bytes name_node)
                 | None \<Rightarrow> Inr None)))"

text \<open>The characters of the argument of \<^verbatim>\<open>rstrip\<close> in \<^verbatim>\<open>_build_signature\<close>:
  brace, colon, space, newline, tab.\<close>

definition signature_trailers :: str where
  "signature_trailers = [0x7B, 0x3A, 0x20, 0x0A, 0x09]"

definition build_signature :: "node \<Rightarrow> language_spec \<Rightarrow> byte list \<Rightarrow> error + str" where
  "build_signature n spec source_bytes =
     (let end_byte' = (case child_by_field_name n ''body'' of
                         Some body \<Rightarrow> start_byte body
                       | None \<Rightarrow> end_byte n)
      in map_result (\<lambda>sig_text. rstrip (strip sig_text) signature_trailers)
           (decode_range source_bytes (start_byte n) end_byte'))"

text \<open>The quote delimiters: three double quotes, three single quotes, one double quote,
  one single quote.\<close>

definition triple_double :: str where
  "triple_double = [0x22, 0x22, 0x22]"

definition triple_single :: str where
  "triple_single = [0x27, 0x27, 0x27]"

definition double_quote :: str where
  "double_quote = [0x22]"

definition single_quote :: str where
  "single_quote = [0x27]"

definition strip_quotes :: "str \<Rightarrow> str" where
  "strip_quotes text0 =
     (let text = strip text0 in
      if startswith text triple_double \<and> endswith text triple_double
      then strip (slice_from_to_end text 3 3)
      else if startswith text triple_single \<and> endswith text triple_single
      then strip (slice_from_to_end text 3 3)
      else if startswith text double_quote \<and> endswith text double_quote
      then strip (slice_from_to_end text 1 1)
      else if startswith text single_quote \<and> endswith text single_quote
      then strip (slice_from_to_end text 1 1)
      else text)"

text \<open>
  One iteration of the loop of \<^verbatim>\<open>_extract_python_docstring\<close> on an
  \<^verbatim>\<open>expression_statement\<close> child: \<open>Some\<close> is a \<^verbatim>\<open>return\<close>, \<open>None\<close> means that the
  iteration falls through and the loop goes on to the next child.
\<close>

definition expression_statement_docstring :: "node \<Rightarrow> byte list \<Rightarrow> (error + str) option" where
  "expression_statement_docstring child source_bytes =
     (case (case child_by_field_name child ''expression'' of
              Some expr \<Rightarrow> if ntype expr = ''string'' then Some expr else None
            | None \<Rightarrow> None) of
        Some expr \<Rightarrow> Some (map_result strip_quotes (node_text source_bytes expr))
      | None \<Rightarrow>
          (case children child of
             [] \<Rightarrow> None
           | first # _ \<Rightarrow>
               if ntype first = ''string'' \<or> ntype first = ''concatenated_string''
               then Some (map_result strip_quotes (node_text source_bytes first))
               else None))"

fun python_docstring_loop :: "node list \<Rightarrow> byte list \<Rightarrow> error + str" where
  "python_docstring_loop [] source_bytes = Inr []"
| "python_docstring_loop (child # rest) source_bytes =
     (if ntype child = ''expression_statement'' then
        (case expression_statement_docstring child source_bytes of
           Some r \<Rightarrow> r
         | None \<Rightarrow> python_docstring_loop rest source_bytes)
      else if ntype child = ''string'' then
        map_result strip_quotes (node_text source_bytes child)
      else python_docstring_loop rest source_bytes)"

definition extract_python_docstring :: "node \<Rightarrow> byte list \<Rightarrow> error + str" where
  "extract_python_docstring n source_bytes =
     (case child_by_field_name n ''body'' of
        None \<Rightarrow> Inr []
      | Some body \<Rightarrow>
          if child_count body = 0 then Inr []
          else python_docstring_loop (children body) source_bytes)"

text \<open>\<^verbatim>\<open>_clean_comment_markers\<close>: the body of its loop on one line, then the whole.\<close>

definition clean_comment_line :: "str \<Rightarrow> str" where
  "clean_comment_line line0 =
     (let line1 = strip line0;
          line2 = (if startswith line1 (str ''/**'') then drop 3 line1
                   else if startswith line1 (str ''/*'') then drop 2 line1
                   else if startswith line1 (str ''///'') then drop 3 line1
                   else if startswith line1 (str ''//'') then drop 2 line1
                   else if startswith line1 (str ''//!'') then drop 3 line1
                   else if startswith line1 (str ''*'') then drop 1 line1
                   else line1);
          line3 = (if endswith line2 (str ''*/'') then slice_from_to_end line2 0 2 else line2)
      in strip line3)"

definition clean_comment_markers :: "str \<Rightarrow> str" where
  "clean_comment_markers text =
     strip (join [0x0A] (map clean_comment_line (split_lines text)))"

text \<open>
  \<^verbatim>\<open>node.prev_named_sibling\<close> needs the siblings of the node. They are passed as
  \<open>prevs\<close>: the siblings before the node, nearest first. The \<^verbatim>\<open>while\<close> loop of
  \<^verbatim>\<open>_extract_preceding_comments\<close> walks them, passing over unnamed nodes, and puts each
  comment text in front of the ones collected so far.
\<close>

fun preceding_comments_loop :: "node list \<Rightarrow> byte list \<Rightarrow> str list \<Rightarrow> error + str list" where
  "preceding_comments_loop [] source_bytes comments = Inr comments"
| "preceding_comments_loop (prev # earlier) source_bytes comments =
     (if \<not> is_named prev then preceding_comments_loop earlier source_bytes comments
      else if ntype prev = ''comment'' \<or> ntype prev = ''line_comment''
              \<or> ntype prev = ''block_comment'' then
        (case node_text source_bytes prev of
           Inl e \<Rightarrow> Inl e
         | Inr comment_text \<Rightarrow>
             preceding_comments_loop earlier source_bytes (comment_text # comments))
      else Inr comments)"

definition extract_preceding_comments :: "node list \<Rightarrow> byte list \<Rightarrow> error + str" where
  "extract_preceding_comments prevs source_bytes =
     (case preceding_comments_loop prevs source_bytes [] of
        Inl e \<Rightarrow> Inl e
      | Inr comments \<Rightarrow>
          if comments = [] then Inr []
          else Inr (clean_comment_markers (join [0x0A] comments)))"

definition extract_docstring ::
  "node \<Rightarrow> language_spec \<Rightarrow> byte list \<Rightarrow> node list \<Rightarrow> error + str" where
  "extract_docstring n spec source_bytes prevs =
     (if docstring_strategy spec = ''next_sibling_string''
      then extract_python_docstring n source_bytes
      else if docstring_strategy spec = ''preceding_comment''
      then extract_preceding_comments prevs source_bytes
      else Inr [])"

fun decorators_loop ::
  "node list \<Rightarrow> string \<Rightarrow> byte list \<Rightarrow> str list \<Rightarrow> error + str list" where
  "decorators_loop [] t source_bytes acc = Inr acc"
| "decorators_loop (prev # earlier) t source_bytes acc =
     (if \<not> is_named prev then decorators_loop earlier t source_bytes acc
      else if ntype prev = t then
        (case node_text source_bytes prev of
           Inl e \<Rightarrow> Inl e
         | Inr decorator_text \<Rightarrow>
             decorators_loop earlier t source_bytes (strip decorator_text # acc))
      else Inr acc)"

definition extract_decorators ::
  "language_spec \<Rightarrow> byte list \<Rightarrow> node list \<Rightarrow> error + str list" where
  "extract_decorators spec source_bytes prevs =
     (case decorator_node_type spec of
        None \<Rightarrow> Inr []
      | Some t \<Rightarrow> if t = [] then Inr [] else decorators_loop prevs t source_bytes [])"

text \<open>\<^verbatim>\<open>_extract_constant\<close>. The test on the name is kept apart.\<close>

definition constant_name :: "unicode_db \<Rightarrow> str \<Rightarrow> bool" where
  "constant_name db name' =
     (isupper db name' \<or> (length name' > 1 \<and> isupper db [hd name'] \<and> 0x5F \<in> set name'))"

definition extract_constant ::
  "unicode_db \<Rightarrow> node \<Rightarrow> language_spec \<Rightarrow> byte list \<Rightarrow> str \<Rightarrow> string \<Rightarrow> error + symbol option"
where
  "extract_constant db n spec source_bytes filename language' =
     (if ntype n = ''assignment'' then
        (case child_by_field_name n ''left'' of
           None \<Rightarrow> Inr None
         | Some left \<Rightarrow>
             if ntype left = ''identifier'' then
               (case node_text source_bytes left of
                  Inl e \<Rightarrow> Inl e
                | Inr name' \<Rightarrow>
                    if constant_name db name' then
                      (case node_text source_bytes n of
                         Inl e \<Rightarrow> Inl e
                       | Inr text \<Rightarrow>
                           Inr (Some \<lparr>
                             symbol_id = make_symbol_id filename name',
                             file = filename,
                             name = name',
                             qualified_name = name',
                             kind = ''constant'',
                             language = language',
                             signature = take 100 (strip text),
                             docstring = [],
                             summary = [],
                             decorators = [],
                             search_keywords = [],
                             parent = None,
                             line = fst (start_point n) + 1,
                             end_line = fst (end_point n) + 1,
                             byte_offset = start_byte n,
                             byte_length = end_byte n - start_byte n \<rparr>))
                    else Inr None)
             else Inr None)
      else Inr None)"

text \<open>
  \<^verbatim>\<open>_extract_symbol\<close>. The subscript \<^verbatim>\<open>spec.symbol_node_types[node.type]\<close> raises
  \<^verbatim>\<open>KeyError\<close> on a type that is no key; \<^verbatim>\<open>if not name\<close> holds for \<^verbatim>\<open>None\<close> and for
  the empty string.
\<close>

definition extract_symbol ::
  "node \<Rightarrow> language_spec \<Rightarrow> byte list \<Rightarrow> str \<Rightarrow> string \<Rightarrow> symbol option \<Rightarrow> node list
     \<Rightarrow> error + symbol option"
where
  "extract_symbol n spec source_bytes filename language' parent_symbol prevs =
     (case symbol_node_types spec (ntype n) of
        None \<Rightarrow> Inl KeyError
      | Some kind0 \<Rightarrow>
          if has_error n then Inr None
          else
            (case extract_name n spec source_bytes of
               Inl e \<Rightarrow> Inl e
             | Inr None \<Rightarrow> Inr None
             | Inr (Some name') \<Rightarrow>
                 if name' = [] then Inr None
                 else
                   (let qualified_name' =
                          (case parent_symbol of
                             Some p \<Rightarrow> name p @ str ''.'' @ name'
                           | None \<Rightarrow> name');
                        kind' =
                          (case parent_symbol of
                             Some p \<Rightarrow> if kind0 = ''function'' then ''method'' else kind0
                           | None \<Rightarrow> kind0)
                    in case build_signature n spec source_bytes of
                         Inl e \<Rightarrow> Inl e
                       | Inr signature' \<Rightarrow>
                    (case extract_docstring n spec source_bytes prevs of
                         Inl e \<Rightarrow> Inl e
                       | Inr docstring' \<Rightarrow>
                    (case extract_decorators spec source_bytes prevs of
                         Inl e \<Rightarrow> Inl e
                       | Inr decorators' \<Rightarrow>
                           Inr (Some \<lparr>
                             symbol_id = make_symbol_id filename qualified_name',
                             file = filename,
                             name = name',
                             qualified_name = qualified_name',
                             kind = kind',
                             language = language',
                             signature = signature',
                             docstring = docstring',
                             summary = [],
                             decorators = decorators',
                             search_keywords = [],
                             parent = (case parent_symbol of
                                         Some p \<Rightarrow> Some (symbol_id p)
                                       | None \<Rightarrow> None),
                             line = fst (start_point n) + 1,
                             end_line = fst (end_point n) + 1,
                             byte_offset = start_byte n,
                             byte_length = end_byte n - start_byte n \<rparr>))))))"

section \<open>The tree walker (extractor.py)\<close>

text \<open>
  \<^verbatim>\<open>_walk_tree\<close> appends to the list \<^verbatim>\<open>symbols\<close>; the model takes the list and
  returns it extended. Its two \<^verbatim>\<open>if\<close> blocks come first, each as a step of its own.

  The first block (lines 48 to 54): on a type of \<open>symbol_node_types\<close> an extracted symbol
  is appended and becomes the enclosing symbol. The step returns the list and the
  enclosing symbol.
\<close>

definition symbol_step ::
  "node \<Rightarrow> language_spec \<Rightarrow> byte list \<Rightarrow> str \<Rightarrow> string \<Rightarrow> symbol list \<Rightarrow> symbol option
     \<Rightarrow> node list \<Rightarrow> error + symbol list \<times> symbol option"
where
  "symbol_step n spec source_bytes filename language' symbols parent_symbol prevs =
     (if symbol_node_types spec (ntype n) \<noteq> None then
        (case extract_symbol n spec source_bytes filename language' parent_symbol prevs of
           Inl e \<Rightarrow> Inl e
         | Inr None \<Rightarrow> Inr (symbols, parent_symbol)
         | Inr (Some symbol) \<Rightarrow> Inr (symbols @ [symbol], Some symbol))
      else Inr (symbols, parent_symbol))"

text \<open>
  The second block (lines 57 to 60): on a type of \<open>constant_patterns\<close>, and with no
  enclosing symbol, an extracted constant is appended.
\<close>

definition constant_step ::
  "unicode_db \<Rightarrow> node \<Rightarrow> language_spec \<Rightarrow> byte list \<Rightarrow> str \<Rightarrow> string \<Rightarrow> symbol list
     \<Rightarrow> symbol option \<Rightarrow> error + symbol list"
where
  "constant_step db n spec source_bytes filename language' symbols parent_symbol =
     (if ntype n \<in> set (constant_patterns spec) \<and> parent_symbol = None then
        (case extract_constant db n spec source_bytes filename language' of
           Inl e \<Rightarrow> Inl e
         | Inr None \<Rightarrow> Inr symbols
         | Inr (Some const_symbol) \<Rightarrow> Inr (symbols @ [const_symbol]))
      else Inr symbols)"

text \<open>
  \<open>walk_children\<close> is the \<^verbatim>\<open>for child in node.children\<close> loop; it hands each child the
  siblings that precede it (the root has none).
\<close>

fun walk_tree ::
  "unicode_db \<Rightarrow> node \<Rightarrow> language_spec \<Rightarrow> byte list \<Rightarrow> str \<Rightarrow> string \<Rightarrow> symbol list
     \<Rightarrow> symbol option \<Rightarrow> node list \<Rightarrow> error + symbol list"
and walk_children ::
  "unicode_db \<Rightarrow> node list \<Rightarrow> language_spec \<Rightarrow> byte list \<Rightarrow> str \<Rightarrow> string \<Rightarrow> symbol list
     \<Rightarrow> symbol option \<Rightarrow> node list \<Rightarrow> error + symbol list"
where
  "walk_tree db (Node t f nm err sb eb sp ep cs) spec source_bytes filename language'
     symbols parent_symbol prevs =
     (let n = Node t f nm err sb eb sp ep cs in
      case symbol_step n spec source_bytes filename language' symbols parent_symbol prevs of
        Inl e \<Rightarrow> Inl e
      | Inr (symbols1, parent_symbol1) \<Rightarrow>
          (case constant_step db n spec source_bytes filename language' symbols1
                  parent_symbol1 of
             Inl e \<Rightarrow> Inl e
           | Inr symbols2 \<Rightarrow>
               walk_children db cs spec source_bytes filename language' symbols2
                 parent_symbol1 []))"
| "walk_children db [] spec source_bytes filename language' symbols parent_symbol prevs =
     Inr symbols"
| "walk_children db (child # rest) spec source_bytes filename language' symbols parent_symbol
     prevs =
     (case walk_tree db child spec source_bytes filename language' symbols parent_symbol prevs of
        Inl e \<Rightarrow> Inl e
      | Inr symbols' \<Rightarrow>
          walk_children db rest spec source_bytes filename language' symbols' parent_symbol
            (child # prevs))"

text \<open>
  \<^verbatim>\<open>parse_file\<close>. \<open>get_parser\<close> stands for tree-sitter: given the grammar name and the
  source bytes it returns the root node of the syntax tree.
\<close>

definition parse_file ::
  "unicode_db \<Rightarrow> (string \<Rightarrow> byte list \<Rightarrow> node) \<Rightarrow> str \<Rightarrow> str \<Rightarrow> string \<Rightarrow> error + symbol list"
where
  "parse_file db get_parser content filename language' =
     (case LANGUAGE_REGISTRY language' of
        None \<Rightarrow> Inr []
      | Some spec \<Rightarrow>
          (case encode content of
             Inl e \<Rightarrow> Inl e
           | Inr source_bytes \<Rightarrow>
               walk_tree db (get_parser (ts_language spec) source_bytes) spec source_bytes
                 filename language' [] None []))"

section \<open>The hierarchy builder (hierarchy.py)\<close>

text \<open>
  \<^verbatim>\<open>build_symbol_tree\<close> creates one \<^verbatim>\<open>SymbolNode\<close> object per key of \<^verbatim>\<open>node_map\<close> and
  then appends to the \<^verbatim>\<open>children\<close> lists of these shared objects. The objects live in an
  explicit store; a reference to an object is its key in \<^verbatim>\<open>node_map\<close> (every object is
  stored under exactly one key). The field \<^verbatim>\<open>children\<close> is named \<open>node_children\<close>.
\<close>

record symbol_node =
  symbol :: symbol
  node_children :: "str list"

type_synonym node_store = "str \<rightharpoonup> symbol_node"

text \<open>The dictionary comprehension: a later symbol with the same id replaces an earlier one.\<close>

definition new_node_map :: "symbol list \<Rightarrow> node_store" where
  "new_node_map symbols =
     foldl (\<lambda>m s. m(symbol_id s \<mapsto> \<lparr> symbol = s, node_children = [] \<rparr>)) Map.empty symbols"

text \<open>
  The test \<^verbatim>\<open>symbol.parent and symbol.parent in node_map\<close>: the parent is set, is not the
  empty string, and is a key of the batch.
\<close>

definition parent_resolves :: "node_store \<Rightarrow> symbol \<Rightarrow> bool" where
  "parent_resolves node_map s =
     (case parent s of None \<Rightarrow> False | Some p \<Rightarrow> p \<noteq> [] \<and> node_map p \<noteq> None)"

text \<open>One iteration of the loop over \<^verbatim>\<open>symbols\<close>, on the store and the list \<^verbatim>\<open>roots\<close>.\<close>

definition link_symbol :: "node_store \<times> str list \<Rightarrow> symbol \<Rightarrow> node_store \<times> str list" where
  "link_symbol state s =
     (let node_map = fst state; roots = snd state; node' = symbol_id s in
      if parent_resolves node_map s then
        (case node_map (the (parent s)) of
           Some parent_node \<Rightarrow>
             (node_map(the (parent s) \<mapsto>
                parent_node\<lparr> node_children := node_children parent_node @ [node'] \<rparr>), roots)
         | None \<Rightarrow> (node_map, roots))
      else (node_map, roots @ [node']))"

definition build_symbol_tree :: "symbol list \<Rightarrow> node_store \<times> str list" where
  "build_symbol_tree symbols = foldl link_symbol (new_node_map symbols, []) symbols"

text \<open>
  \<^verbatim>\<open>flatten_tree\<close> follows references, so on a store with a cycle it would not return;
  the result is an \<open>option\<close> and \<open>None\<close> stands for no result.
\<close>

partial_function (option) flatten_tree ::
  "node_store \<Rightarrow> str list \<Rightarrow> nat \<Rightarrow> (symbol \<times> nat) list option"
where
  "flatten_tree store nodes depth =
     (case nodes of
        [] \<Rightarrow> Some []
      | n # rest \<Rightarrow>
          (case store n of
             None \<Rightarrow> None
           | Some nd \<Rightarrow>
               Option.bind (flatten_tree store (node_children nd) (depth + 1)) (\<lambda>below.
               Option.bind (flatten_tree store rest depth) (\<lambda>after.
               Some ((symbol nd, depth) # below @ after)))))"

text \<open>The composition \<^verbatim>\<open>flatten_tree(build_symbol_tree(symbols))\<close>.\<close>

definition outline :: "symbol list \<Rightarrow> (symbol \<times> nat) list option" where
  "outline symbols =
     (let built = build_symbol_tree symbols in flatten_tree (fst built) (snd built) 0)"

section \<open>Notions used to state the properties\<close>

text \<open>All nodes of a syntax tree, the root first, in document order.\<close>

fun subnodes :: "node \<Rightarrow> node list" where
  "subnodes (Node t f nm err sb eb sp ep cs) =
     Node t f nm err sb eb sp ep cs # concat (map subnodes cs)"

text \<open>
  The wording of the specification for an accepted constant name: "entirely upper-case,
  or mixed case beginning with an upper-case letter and containing an underscore".
\<close>

definition entirely_upper_case :: "unicode_db \<Rightarrow> str \<Rightarrow> bool" where
  "entirely_upper_case db s = (list_ex (is_upper db) s \<and> \<not> list_ex (is_lower db) s)"

definition mixed_case :: "unicode_db \<Rightarrow> str \<Rightarrow> bool" where
  "mixed_case db s = (list_ex (is_upper db) s \<and> list_ex (is_lower db) s)"

definition begins_with_upper :: "unicode_db \<Rightarrow> str \<Rightarrow> bool" where
  "begins_with_upper db s =
     (case s of [] \<Rightarrow> False | c # _ \<Rightarrow> is_upper db c \<and> \<not> is_lower db c)"

definition accepted_constant_name :: "unicode_db \<Rightarrow> str \<Rightarrow> bool" where
  "accepted_constant_name db s =
     (entirely_upper_case db s
      \<or> (mixed_case db s \<and> begins_with_upper db s \<and> 0x5F \<in> set s))"

section \<open>Concrete inputs\<close>

text \<open>
  Small source files with the syntax trees tree-sitter builds for them (byte offsets and
  points as in the source text), used to run the extractor.
\<close>

definition nested_source :: str where
  "nested_source = str ''class A:\<newline>    class B:\<newline>        def m(self):\<newline>            pass\<newline>''"

definition nested_tree :: node where
  "nested_tree =
     Node ''module'' None True False 0 60 (0, 0) (4, 0) [
       Node ''class_definition'' None True False 0 59 (0, 0) (3, 16) [
         Node ''class'' None False False 0 5 (0, 0) (0, 5) [],
         Node ''identifier'' (Some ''name'') True False 6 7 (0, 6) (0, 7) [],
         Node '':'' None False False 7 8 (0, 7) (0, 8) [],
         Node ''block'' (Some ''body'') True False 13 59 (1, 4) (3, 16) [
           Node ''class_definition'' None True False 13 59 (1, 4) (3, 16) [
             Node ''class'' None False False 13 18 (1, 4) (1, 9) [],
             Node ''identifier'' (Some ''name'') True False 19 20 (1, 10) (1, 11) [],
             Node '':'' None False False 20 21 (1, 11) (1, 12) [],
             Node ''block'' (Some ''body'') True False 30 59 (2, 8) (3, 16) [
               Node ''function_definition'' None True False 30 59 (2, 8) (3, 16) [
                 Node ''def'' None False False 30 33 (2, 8) (2, 11) [],
                 Node ''identifier'' (Some ''name'') True False 34 35 (2, 12) (2, 13) [],
                 Node ''parameters'' (Some ''parameters'') True False 35 41 (2, 13) (2, 19) [
                   Node ''('' None False False 35 36 (2, 13) (2, 14) [],
                   Node ''identifier'' None True False 36 40 (2, 14) (2, 18) [],
                   Node '')'' None False False 40 41 (2, 18) (2, 19) []],
                 Node '':'' None False False 41 42 (2, 19) (2, 20) [],
                 Node ''block'' (Some ''body'') True False 55 59 (3, 12) (3, 16) [
                   Node ''pass_statement'' None True False 55 59 (3, 12) (3, 16) [
                     Node ''pass'' None False False 55 59 (3, 12) (3, 16) []]]]]]]]]"

definition twice_source :: str where
  "twice_source = str ''def f():\<newline>    pass\<newline>def f():\<newline>    pass\<newline>''"

definition twice_tree :: node where
  "twice_tree =
     Node ''module'' None True False 0 36 (0, 0) (4, 0) [
       Node ''function_definition'' None True False 0 17 (0, 0) (1, 8) [
         Node ''def'' None False False 0 3 (0, 0) (0, 3) [],
         Node ''identifier'' (Some ''name'') True False 4 5 (0, 4) (0, 5) [],
         Node ''parameters'' (Some ''parameters'') True False 5 7 (0, 5) (0, 7) [
           Node ''('' None False False 5 6 (0, 5) (0, 6) [],
           Node '')'' None False False 6 7 (0, 6) (0, 7) []],
         Node '':'' None False False 7 8 (0, 7) (0, 8) [],
         Node ''block'' (Some ''body'') True False 13 17 (1, 4) (1, 8) [
           Node ''pass_statement'' None True False 13 17 (1, 4) (1, 8) [
             Node ''pass'' None False False 13 17 (1, 4) (1, 8) []]]],
       Node ''function_definition'' None True False 18 35 (2, 0) (3, 8) [
         Node ''def'' None False False 18 21 (2, 0) (2, 3) [],
         Node ''identifier'' (Some ''name'') True False 22 23 (2, 4) (2, 5) [],
         Node ''parameters'' (Some ''parameters'') True False 23 25 (2, 5) (2, 7) [
           Node ''('' None False False 23 24 (2, 5) (2, 6) [],
           Node '')'' None False False 24 25 (2, 6) (2, 7) []],
         Node '':'' None False False 25 26 (2, 7) (2, 8) [],
         Node ''block'' (Some ''body'') True False 31 35 (3, 4) (3, 8) [
           Node ''pass_statement'' None True False 31 35 (3, 4) (3, 8) [
             Node ''pass'' None False False 31 35 (3, 4) (3, 8) []]]]]"

definition late_string_source :: str where
  \<open>late_string_source = str ''def f():\<newline>    x = 1\<newline>    "late"\<newline>''\<close>

definition late_string_tree :: node where
  "late_string_tree =
     Node ''module'' None True False 0 30 (0, 0) (3, 0) [
       Node ''function_definition'' None True False 0 29 (0, 0) (2, 10) [
         Node ''def'' None False False 0 3 (0, 0) (0, 3) [],
         Node ''identifier'' (Some ''name'') True False 4 5 (0, 4) (0, 5) [],
         Node ''parameters'' (Some ''parameters'') True False 5 7 (0, 5) (0, 7) [
           Node ''('' None False False 5 6 (0, 5) (0, 6) [],
           Node '')'' None False False 6 7 (0, 6) (0, 7) []],
         Node '':'' None False False 7 8 (0, 7) (0, 8) [],
         Node ''block'' (Some ''body'') True False 13 29 (1, 4) (2, 10) [
           Node ''expression_statement'' None True False 13 18 (1, 4) (1, 9) [
             Node ''assignment'' None True False 13 18 (1, 4) (1, 9) [
               Node ''identifier'' (Some ''left'') True False 13 14 (1, 4) (1, 5) [],
               Node ''='' None False False 15 16 (1, 6) (1, 7) [],
               Node ''integer'' (Some ''right'') True False 17 18 (1, 8) (1, 9) []]],
           Node ''expression_statement'' None True False 23 29 (2, 4) (2, 10) [
             Node ''string'' None True False 23 29 (2, 4) (2, 10) [
               Node ''string_start'' None True False 23 24 (2, 4) (2, 5) [],
               Node ''string_content'' None True False 24 28 (2, 5) (2, 9) [],
               Node ''string_end'' None True False 28 29 (2, 9) (2, 10) []]]]]]"

definition max_size_source :: str where
  "max_size_source = str ''MAX_SIZE = 100\<newline>def f():\<newline>    MAX_SIZE = 100\<newline>''"

definition max_size_tree :: node where
  "max_size_tree =
     Node ''module'' None True False 0 43 (0, 0) (3, 0) [
       Node ''expression_statement'' None True False 0 14 (0, 0) (0, 14) [
         Node ''assignment'' None True False 0 14 (0, 0) (0, 14) [
           Node ''identifier'' (Some ''left'') True False 0 8 (0, 0) (0, 8) [],
           Node ''='' None False False 9 10 (0, 9) (0, 10) [],
           Node ''integer'' (Some ''right'') True False 11 14 (0, 11) (0, 14) []]],
       Node ''function_definition'' None True False 15 42 (1, 0) (2, 18) [
         Node ''def'' None False False 15 18 (1, 0) (1, 3) [],
         Node ''identifier'' (Some ''name'') True False 19 20 (1, 4) (1, 5) [],
         Node ''parameters'' (Some ''parameters'') True False 20 22 (1, 5) (1, 7) [
           Node ''('' None False False 20 21 (1, 5) (1, 6) [],
           Node '')'' None False False 21 22 (1, 6) (1, 7) []],
         Node '':'' None False False 22 23 (1, 7) (1, 8) [],
         Node ''block'' (Some ''body'') True False 28 42 (2, 4) (2, 18) [
           Node ''expression_statement'' None True False 28 42 (2, 4) (2, 18) [
             Node ''assignment'' None True False 28 42 (2, 4) (2, 18) [
               Node ''identifier'' (Some ''left'') True False 28 36 (2, 4) (2, 12) [],
               Node ''='' None False False 37 38 (2, 13) (2, 14) [],
               Node ''integer'' (Some ''right'') True False 39 42 (2, 15) (2, 18) []]]]]]"

definition stray_item_source :: str where
  "stray_item_source = str ''X = [1, 2 3]''"

definition stray_item_assignment :: node where
  "stray_item_assignment =
     Node ''assignment'' None True True 0 12 (0, 0) (0, 12) [
       Node ''identifier'' (Some ''left'') True False 0 1 (0, 0) (0, 1) [],
       Node ''='' None False False 2 3 (0, 2) (0, 3) [],
       Node ''list'' (Some ''right'') True True 4 12 (0, 4) (0, 12) [
         Node ''['' None False False 4 5 (0, 4) (0, 5) [],
         Node ''integer'' None True False 5 6 (0, 5) (0, 6) [],
         Node '','' None False False 6 7 (0, 6) (0, 7) [],
         Node ''integer'' None True False 8 9 (0, 8) (0, 9) [],
         Node ''ERROR'' None True True 10 11 (0, 10) (0, 11) [
           Node ''integer'' None True False 10 11 (0, 10) (0, 11) []],
         Node '']'' None False False 11 12 (0, 11) (0, 12) []]]"

definition stray_item_tree :: node where
  "stray_item_tree =
     Node ''module'' None True True 0 12 (0, 0) (0, 12) [
       Node ''expression_statement'' None True True 0 12 (0, 0) (0, 12) [
         stray_item_assignment]]"

definition max_retry_source :: str where
  "max_retry_source = str ''function f() {}\<newline>const MAX_RETRY = 5;\<newline>''"

definition max_retry_tree :: node where
  "max_retry_tree =
     Node ''program'' None True False 0 37 (0, 0) (2, 0) [
       Node ''function_declaration'' None True False 0 15 (0, 0) (0, 15) [
         Node ''function'' None False False 0 8 (0, 0) (0, 8) [],
         Node ''identifier'' (Some ''name'') True False 9 10 (0, 9) (0, 10) [],
         Node ''formal_parameters'' (Some ''parameters'') True False 10 12 (0, 10) (0, 12) [
           Node ''('' None False False 10 11 (0, 10) (0, 11) [],
           Node '')'' None False False 11 12 (0, 11) (0, 12) []],
         Node ''statement_block'' (Some ''body'') True False 13 15 (0, 13) (0, 15) [
           Node ''{'' None False False 13 14 (0, 13) (0, 14) [],
           Node ''}'' None False False 14 15 (0, 14) (0, 15) []]],
       Node ''lexical_declaration'' None True False 16 36 (1, 0) (1, 20) [
         Node ''const'' (Some ''kind'') False False 16 21 (1, 0) (1, 5) [],
         Node ''variable_declarator'' None True False 22 35 (1, 6) (1, 19) [
           Node ''identifier'' (Some ''name'') True False 22 31 (1, 6) (1, 15) [],
           Node ''='' None False False 32 33 (1, 16) (1, 17) [],
           Node ''number'' (Some ''value'') True False 34 35 (1, 18) (1, 19) []],
         Node '';'' None False False 35 36 (1, 19) (1, 20) []]]"

text \<open>The symbols that the extractor returns for some of these files.\<close>

definition nested_A :: symbol where
  "nested_A = \<lparr> symbol_id = str ''t-py::A'', file = str ''t.py'', name = str ''A'',
     qualified_name = str ''A'', kind = ''class'', language = ''python'',
     signature = str ''class A'', docstring = [], summary = [], decorators = [],
     search_keywords = [], parent = None, line = 1, end_line = 4, byte_offset = 0,
     byte_length = 59 \<rparr>"

definition nested_B :: symbol where
  "nested_B = \<lparr> symbol_id = str ''t-py::A.B'', file = str ''t.py'', name = str ''B'',
     qualified_name = str ''A.B'', kind = ''class'', language = ''python'',
     signature = str ''class B'', docstring = [], summary = [], decorators = [],
     search_keywords = [], parent = Some (str ''t-py::A''), line = 2, end_line = 4,
     byte_offset = 13, byte_length = 46 \<rparr>"

definition nested_m :: symbol where
  "nested_m = \<lparr> symbol_id = str ''t-py::B.m'', file = str ''t.py'', name = str ''m'',
     qualified_name = str ''B.m'', kind = ''method'', language = ''python'',
     signature = str ''def m(self)'', docstring = [], summary = [], decorators = [],
     search_keywords = [], parent = Some (str ''t-py::A.B''), line = 3, end_line = 4,
     byte_offset = 30, byte_length = 29 \<rparr>"

definition max_size_constant :: symbol where
  "max_size_constant = \<lparr> symbol_id = str ''t-py::MAX_SIZE'', file = str ''t.py'',
     name = str ''MAX_SIZE'', qualified_name = str ''MAX_SIZE'', kind = ''constant'',
     language = ''python'', signature = str ''MAX_SIZE = 100'', docstring = [], summary = [],
     decorators = [], search_keywords = [], parent = None, line = 1, end_line = 1,
     byte_offset = 0, byte_length = 14 \<rparr>"

definition max_size_f :: symbol where
  "max_size_f = \<lparr> symbol_id = str ''t-py::f'', file = str ''t.py'', name = str ''f'',
     qualified_name = str ''f'', kind = ''function'', language = ''python'',
     signature = str ''def f()'', docstring = [], summary = [], decorators = [],
     search_keywords = [], parent = None, line = 2, end_line = 3, byte_offset = 15,
     byte_length = 27 \<rparr>"

definition max_retry_f :: symbol where
  "max_retry_f = \<lparr> symbol_id = str ''app-js::f'', file = str ''app.js'', name = str ''f'',
     qualified_name = str ''f'', kind = ''function'', language = ''javascript'',
     signature = str ''function f()'', docstring = [], summary = [], decorators = [],
     search_keywords = [], parent = None, line = 1, end_line = 1, byte_offset = 0,
     byte_length = 15 \<rparr>"

text \<open>The assignment node of the first line of the file with \<open>MAX_SIZE\<close>, and its left side.\<close>

definition max_size_left :: node where
  "max_size_left = Node ''identifier'' (Some ''left'') True False 0 8 (0, 0) (0, 8) []"

definition max_size_assignment :: node where
  "max_size_assignment =
     Node ''assignment'' None True False 0 14 (0, 0) (0, 14) [
       Node ''identifier'' (Some ''left'') True False 0 8 (0, 0) (0, 8) [],
       Node ''='' None False False 9 10 (0, 9) (0, 10) [],
       Node ''integer'' (Some ''right'') True False 11 14 (0, 11) (0, 14) []]"

text \<open>
  A file whose function name is the two-byte character U+00E9, with a tree whose name
  node ends after the first of the two bytes.
\<close>

definition cut_name_source :: str where
  "cut_name_source = str ''def '' @ [0xE9] @ str ''():\<newline>    pass\<newline>''"

definition cut_name_bytes :: "byte list" where
  "cut_name_bytes = bytes ''def '' @ [0xC3, 0xA9] @ bytes ''():\<newline>    pass\<newline>''"

definition cut_name_identifier :: node where
  "cut_name_identifier = Node ''identifier'' (Some ''name'') True False 4 5 (0, 4) (0, 5) []"

definition cut_name_function :: node where
  "cut_name_function =
     Node ''function_definition'' None True False 0 18 (0, 0) (1, 8) [
       Node ''def'' None False False 0 3 (0, 0) (0, 3) [],
       Node ''identifier'' (Some ''name'') True False 4 5 (0, 4) (0, 5) [],
       Node ''parameters'' (Some ''parameters'') True False 6 8 (0, 6) (0, 8) [
         Node ''('' None False False 6 7 (0, 6) (0, 7) [],
         Node '')'' None False False 7 8 (0, 7) (0, 8) []],
       Node '':'' None False False 8 9 (0, 8) (0, 9) [],
       Node ''block'' (Some ''body'') True False 14 18 (1, 4) (1, 8) [
         Node ''pass_statement'' None True False 14 18 (1, 4) (1, 8) [
           Node ''pass'' None False False 14 18 (1, 4) (1, 8) []]]]"

definition cut_name_tree :: node where
  "cut_name_tree = Node ''module'' None True False 0 19 (0, 0) (2, 0) [cut_name_function]"

text \<open>
  A file whose docstring holds the two-byte character U+00E9, with a tree whose string
  node ends after the first of the two bytes.
\<close>

definition cut_docstring_source :: str where
  \<open>cut_docstring_source = str ''def f():\<newline>    "'' @ [0xE9] @ str ''"\<newline>''\<close>

definition cut_docstring_bytes :: "byte list" where
  \<open>cut_docstring_bytes = bytes ''def f():\<newline>    "'' @ [0xC3, 0xA9] @ bytes ''"\<newline>''\<close>

definition cut_docstring_tree :: node where
  "cut_docstring_tree =
     Node ''module'' None True False 0 18 (0, 0) (2, 0) [
       Node ''function_definition'' None True False 0 17 (0, 0) (1, 8) [
         Node ''def'' None False False 0 3 (0, 0) (0, 3) [],
         Node ''identifier'' (Some ''name'') True False 4 5 (0, 4) (0, 5) [],
         Node ''parameters'' (Some ''parameters'') True False 5 7 (0, 5) (0, 7) [
           Node ''('' None False False 5 6 (0, 5) (0, 6) [],
           Node '')'' None False False 6 7 (0, 6) (0, 7) []],
         Node '':'' None False False 7 8 (0, 7) (0, 8) [],
         Node ''block'' (Some ''body'') True False 13 17 (1, 4) (1, 8) [
           Node ''expression_statement'' None True False 13 17 (1, 4) (1, 8) [
             Node ''string'' None True False 13 15 (1, 4) (1, 6) [
               Node ''string_start'' None True False 13 14 (1, 4) (1, 5) [],
               Node ''string_content'' None True False 14 15 (1, 5) (1, 6) []]]]]]"

section \<open>Provenance of a symbol\<close>

text \<open>
  A symbol is emitted at a node when \<^verbatim>\<open>_extract_symbol\<close> returns it there (for some
  enclosing symbol and some preceding siblings) on a type of \<open>symbol_node_types\<close>, or
  \<^verbatim>\<open>_extract_constant\<close> returns it there on a type of \<open>constant_patterns\<close>.
\<close>

definition emitted_at ::
  "unicode_db \<Rightarrow> language_spec \<Rightarrow> byte list \<Rightarrow> str \<Rightarrow> string \<Rightarrow> node \<Rightarrow> symbol \<Rightarrow> bool"
where
  "emitted_at db spec source_bytes filename language' m s =
     ((symbol_node_types spec (ntype m) \<noteq> None
        \<and> (\<exists>p prevs. extract_symbol m spec source_bytes filename language' p prevs
                        = Inr (Some s)))
      \<or> (ntype m \<in> set (constant_patterns spec)
           \<and> extract_constant db m spec source_bytes filename language' = Inr (Some s)))"

section \<open>Notions for the hierarchy builder\<close>

text \<open>\<open>a\<close> stands in a strictly earlier cell of \<open>xs\<close> than \<open>b\<close>.\<close>

definition before_in :: "'a \<Rightarrow> 'a \<Rightarrow> 'a list \<Rightarrow> bool" where
  "before_in a b xs = (\<exists>l1 l2. xs = l1 @ l2 \<and> a \<in> set l1 \<and> b \<in> set l2)"

text \<open>
  The test of \<^verbatim>\<open>build_symbol_tree\<close> on the parent of a symbol, against the keys of the
  whole batch.
\<close>

definition resolves :: "symbol list \<Rightarrow> symbol \<Rightarrow> bool" where
  "resolves syms s = parent_resolves (new_node_map syms) s"

text \<open>
  Every parent field that is set is the id of a symbol strictly earlier in the list
  (\<open>seen\<close> holds the ids passed so far).
\<close>

fun parents_earlier :: "str list \<Rightarrow> symbol list \<Rightarrow> bool" where
  "parents_earlier seen [] = True"
| "parents_earlier seen (s # rest) =
     ((case parent s of None \<Rightarrow> True | Some p \<Rightarrow> p \<in> set seen)
      \<and> parents_earlier (symbol_id s # seen) rest)"

text \<open>
  The truth value that Python gives to the field \<^verbatim>\<open>parent\<close>: \<^verbatim>\<open>None\<close> and the empty
  string are false.
\<close>

definition has_parent :: "symbol \<Rightarrow> bool" where
  "has_parent s = (case parent s of None \<Rightarrow> False | Some p \<Rightarrow> p \<noteq> [])"

text \<open>The parent field of \<open>s\<close> is the id of \<open>a\<close>, and it is not the empty string.\<close>

definition child_of :: "symbol \<Rightarrow> symbol \<Rightarrow> bool" where
  "child_of s a = (parent s = Some (symbol_id a) \<and> symbol_id a \<noteq> [])"

text \<open>
  The store and the roots after the loop of \<^verbatim>\<open>build_symbol_tree\<close> has linked the
  symbols \<open>pre\<close>, in closed form.
\<close>

definition linked_store :: "symbol list \<Rightarrow> symbol list \<Rightarrow> node_store" where
  "linked_store syms pre k =
     (case find (\<lambda>s. symbol_id s = k) (rev syms) of
        None \<Rightarrow> None
      | Some s \<Rightarrow>
          Some \<lparr> symbol = s,
                 node_children =
                   map symbol_id (filter (\<lambda>c. resolves syms c \<and> parent c = Some k) pre) \<rparr>)"

definition linked_roots :: "symbol list \<Rightarrow> symbol list \<Rightarrow> str list" where
  "linked_roots syms pre = map symbol_id (filter (\<lambda>s. \<not> resolves syms s) pre)"

text \<open>The descendants of a symbol of the batch: its children, and their descendants.\<close>

inductive descendant_of :: "symbol list \<Rightarrow> symbol \<Rightarrow> symbol \<Rightarrow> bool" for syms where
  child: "s \<in> set syms \<Longrightarrow> a \<in> set syms \<Longrightarrow> child_of s a \<Longrightarrow> descendant_of syms s a"
| below: "descendant_of syms s b \<Longrightarrow> descendant_of syms b a \<Longrightarrow> descendant_of syms s a"

text \<open>
  Two symbols built by hand (the class \<^verbatim>\<open>Symbol\<close> accepts any strings): the first has
  the empty string as id, the second names it as parent.
\<close>

definition empty_id_first :: symbol where
  "empty_id_first = \<lparr> symbol_id = [], file = str ''t.py'', name = str ''f'',
     qualified_name = str ''f'', kind = ''function'', language = ''python'',
     signature = str ''def f()'', docstring = [], summary = [], decorators = [],
     search_keywords = [], parent = None, line = 1, end_line = 2, byte_offset = 0,
     byte_length = 18 \<rparr>"

definition empty_id_second :: symbol where
  "empty_id_second = \<lparr> symbol_id = str ''t-py::g'', file = str ''t.py'', name = str ''g'',
     qualified_name = str ''g'', kind = ''function'', language = ''python'',
     signature = str ''def g()'', docstring = [], summary = [], decorators = [],
     search_keywords = [], parent = Some [], line = 3, end_line = 4, byte_offset = 18,
     byte_length = 18 \<rparr>"

section \<open>The byte ranges that the extraction decodes\<close>

text \<open>
  Every text of a symbol comes from \<^verbatim>\<open>source_bytes[a:b].decode("utf-8")\<close>. The
  definitions of this section list the ranges \<open>(a, b)\<close> of these calls, function by
  function, in the order of the calls. A range is invalid when its bytes are not
  well-formed UTF-8.
\<close>

definition node_range :: "node \<Rightarrow> nat \<times> nat" where
  "node_range n = (start_byte n, end_byte n)"

definition invalid_range :: "byte list \<Rightarrow> nat \<times> nat \<Rightarrow> bool" where
  "invalid_range source_bytes r = (utf8_decode (slice source_bytes (fst r) (snd r)) = None)"

text \<open>\<^verbatim>\<open>_extract_name\<close>: the name node, if the function finds one.\<close>

fun type_spec_name_ranges :: "node list \<Rightarrow> (nat \<times> nat) list" where
  "type_spec_name_ranges [] = []"
| "type_spec_name_ranges (child # rest) =
     (if ntype child = ''type_spec'' then
        (case child_by_field_name child ''name'' of
           Some name_node \<Rightarrow> [node_range name_node]
         | None \<Rightarrow> type_spec_name_ranges rest)
      else type_spec_name_ranges rest)"

definition name_ranges :: "node \<Rightarrow> language_spec \<Rightarrow> (nat \<times> nat) list" where
  "name_ranges n spec =
     (if ntype n = ''arrow_function'' then []
      else if ntype n = ''type_declaration'' then type_spec_name_ranges (children n)
      else (case name_fields spec (ntype n) of
              None \<Rightarrow> []
            | Some field \<Rightarrow>
                (case child_by_field_name n field of
                   Some name_node \<Rightarrow> [node_range name_node]
                 | None \<Rightarrow> [])))"

text \<open>\<^verbatim>\<open>_build_signature\<close>: from the start of the node to its body, or to its end.\<close>

definition signature_range :: "node \<Rightarrow> nat \<times> nat" where
  "signature_range n =
     (start_byte n,
      case child_by_field_name n ''body'' of
        Some body \<Rightarrow> start_byte body
      | None \<Rightarrow> end_byte n)"

text \<open>\<^verbatim>\<open>_extract_python_docstring\<close>: the string node at which its loop returns.\<close>

definition expression_statement_docstring_range :: "node \<Rightarrow> (nat \<times> nat) option" where
  "expression_statement_docstring_range child =
     (case (case child_by_field_name child ''expression'' of
              Some expr \<Rightarrow> if ntype expr = ''string'' then Some expr else None
            | None \<Rightarrow> None) of
        Some expr \<Rightarrow> Some (node_range expr)
      | None \<Rightarrow>
          (case children child of
             [] \<Rightarrow> None
           | first # _ \<Rightarrow>
               if ntype first = ''string'' \<or> ntype first = ''concatenated_string''
               then Some (node_range first)
               else None))"

fun python_docstring_loop_ranges :: "node list \<Rightarrow> (nat \<times> nat) list" where
  "python_docstring_loop_ranges [] = []"
| "python_docstring_loop_ranges (child # rest) =
     (if ntype child = ''expression_statement'' then
        (case expression_statement_docstring_range child of
           Some r \<Rightarrow> [r]
         | None \<Rightarrow> python_docstring_loop_ranges rest)
      else if ntype child = ''string'' then [node_range child]
      else python_docstring_loop_ranges rest)"

definition python_docstring_ranges :: "node \<Rightarrow> (nat \<times> nat) list" where
  "python_docstring_ranges n =
     (case child_by_field_name n ''body'' of
        None \<Rightarrow> []
      | Some body \<Rightarrow>
          if child_count body = 0 then []
          else python_docstring_loop_ranges (children body))"

text \<open>
  \<^verbatim>\<open>_extract_preceding_comments\<close>: the comment nodes of the run of comments before the
  node, the nearest first.
\<close>

fun preceding_comment_ranges :: "node list \<Rightarrow> (nat \<times> nat) list" where
  "preceding_comment_ranges [] = []"
| "preceding_comment_ranges (prev # earlier) =
     (if \<not> is_named prev then preceding_comment_ranges earlier
      else if ntype prev = ''comment'' \<or> ntype prev = ''line_comment''
              \<or> ntype prev = ''block_comment''
      then node_range prev # preceding_comment_ranges earlier
      else [])"

definition docstring_ranges :: "node \<Rightarrow> language_spec \<Rightarrow> node list \<Rightarrow> (nat \<times> nat) list" where
  "docstring_ranges n spec prevs =
     (if docstring_strategy spec = ''next_sibling_string'' then python_docstring_ranges n
      else if docstring_strategy spec = ''preceding_comment''
      then preceding_comment_ranges prevs
      else [])"

text \<open>\<^verbatim>\<open>_extract_decorators\<close>: the run of decorator nodes before the node.\<close>

fun decorators_loop_ranges :: "node list \<Rightarrow> string \<Rightarrow> (nat \<times> nat) list" where
  "decorators_loop_ranges [] t = []"
| "decorators_loop_ranges (prev # earlier) t =
     (if \<not> is_named prev then decorators_loop_ranges earlier t
      else if ntype prev = t then node_range prev # decorators_loop_ranges earlier t
      else [])"

definition decorator_ranges :: "language_spec \<Rightarrow> node list \<Rightarrow> (nat \<times> nat) list" where
  "decorator_ranges spec prevs =
     (case decorator_node_type spec of
        None \<Rightarrow> []
      | Some t \<Rightarrow> if t = [] then [] else decorators_loop_ranges prevs t)"

text \<open>
  \<^verbatim>\<open>_extract_symbol\<close> on a type of \<open>symbol_node_types\<close>: nothing on a node with the error
  flag; else the name, and if the name is not empty, the signature, the docstring and
  the decorators.
\<close>

definition symbol_ranges ::
  "node \<Rightarrow> language_spec \<Rightarrow> byte list \<Rightarrow> node list \<Rightarrow> (nat \<times> nat) list"
where
  "symbol_ranges n spec source_bytes prevs =
     (if has_error n then []
      else name_ranges n spec @
        (case extract_name n spec source_bytes of
           Inr (Some name') \<Rightarrow>
             if name' = [] then []
             else signature_range n # docstring_ranges n spec prevs @ decorator_ranges spec prevs
         | _ \<Rightarrow> []))"

text \<open>
  \<^verbatim>\<open>_extract_constant\<close>: the left side of an assignment to an identifier, and the whole
  assignment if the name passes the test.
\<close>

definition constant_ranges :: "unicode_db \<Rightarrow> node \<Rightarrow> byte list \<Rightarrow> (nat \<times> nat) list" where
  "constant_ranges db n source_bytes =
     (if ntype n = ''assignment'' then
        (case child_by_field_name n ''left'' of
           None \<Rightarrow> []
         | Some left \<Rightarrow>
             if ntype left = ''identifier'' then
               node_range left #
                 (case node_text source_bytes left of
                    Inr name' \<Rightarrow> if constant_name db name' then [node_range n] else []
                  | Inl e \<Rightarrow> [])
             else [])
      else [])"

text \<open>
  The enclosing symbol after the first block of \<^verbatim>\<open>_walk_tree\<close>: the symbol extracted at
  the node, if there is one.
\<close>

definition enclosing_symbol ::
  "node \<Rightarrow> language_spec \<Rightarrow> byte list \<Rightarrow> str \<Rightarrow> string \<Rightarrow> symbol option \<Rightarrow> node list
     \<Rightarrow> symbol option"
where
  "enclosing_symbol n spec source_bytes filename language' parent_symbol prevs =
     (if symbol_node_types spec (ntype n) \<noteq> None then
        (case extract_symbol n spec source_bytes filename language' parent_symbol prevs of
           Inr (Some s) \<Rightarrow> Some s
         | _ \<Rightarrow> parent_symbol)
      else parent_symbol)"

text \<open>
  \<^verbatim>\<open>_walk_tree\<close>: at a node the ranges of \<^verbatim>\<open>_extract_symbol\<close> (on a type of
  \<open>symbol_node_types\<close>), then those of \<^verbatim>\<open>_extract_constant\<close> (on a type of
  \<open>constant_patterns\<close>, with no enclosing symbol), then those of the children. A walk
  decodes the ranges of this list one after the other, and it stops at the first that is
  invalid.
\<close>

fun walk_ranges ::
  "unicode_db \<Rightarrow> node \<Rightarrow> language_spec \<Rightarrow> byte list \<Rightarrow> str \<Rightarrow> string \<Rightarrow> symbol option
     \<Rightarrow> node list \<Rightarrow> (nat \<times> nat) list"
and children_ranges ::
  "unicode_db \<Rightarrow> node list \<Rightarrow> language_spec \<Rightarrow> byte list \<Rightarrow> str \<Rightarrow> string \<Rightarrow> symbol option
     \<Rightarrow> node list \<Rightarrow> (nat \<times> nat) list"
where
  "walk_ranges db (Node t f nm err sb eb sp ep cs) spec source_bytes filename language'
     parent_symbol prevs =
     (let n = Node t f nm err sb eb sp ep cs;
          parent_symbol1 =
            enclosing_symbol n spec source_bytes filename language' parent_symbol prevs
      in (if symbol_node_types spec (ntype n) \<noteq> None
          then symbol_ranges n spec source_bytes prevs else [])
         @ (if ntype n \<in> set (constant_patterns spec) \<and> parent_symbol1 = None
            then constant_ranges db n source_bytes else [])
         @ children_ranges db cs spec source_bytes filename language' parent_symbol1 [])"
| "children_ranges db [] spec source_bytes filename language' parent_symbol prevs = []"
| "children_ranges db (child # rest) spec source_bytes filename language' parent_symbol prevs =
     walk_ranges db child spec source_bytes filename language' parent_symbol prevs
     @ children_ranges db rest spec source_bytes filename language' parent_symbol
         (child # prevs)"

section \<open>Running the extractor on the concrete inputs\<close>

lemmas python_text_defs =
  str_def bytes_def slice_def is_continuation_def decode_def encode_def
  decode_range_def isspace_def rstrip_where_def strip_def rstrip_def startswith_def
  endswith_def slice_from_to_end_def replace_def isupper_def ascii_db_def

lemmas extractor_defs =
  slugify_def make_symbol_id_def child_by_field_name_def child_count_def node_text_def
  map_result_def extract_name_def signature_trailers_def build_signature_def
  triple_double_def triple_single_def double_quote_def single_quote_def strip_quotes_def
  expression_statement_docstring_def extract_python_docstring_def clean_comment_line_def
  clean_comment_markers_def extract_preceding_comments_def extract_docstring_def
  extract_decorators_def constant_name_def extract_constant_def extract_symbol_def
  symbol_step_def constant_step_def parse_file_def LANGUAGE_REGISTRY_def Let_def

lemmas fixture_defs =
  nested_source_def nested_tree_def twice_source_def twice_tree_def late_string_source_def
  late_string_tree_def max_size_source_def max_size_tree_def stray_item_source_def
  stray_item_assignment_def stray_item_tree_def max_retry_source_def max_retry_tree_def nested_A_def nested_B_def
  nested_m_def max_size_constant_def max_size_f_def max_retry_f_def max_size_left_def
  max_size_assignment_def cut_name_source_def cut_name_bytes_def cut_name_identifier_def
  cut_name_function_def cut_name_tree_def cut_docstring_source_def
  cut_docstring_bytes_def cut_docstring_tree_def

lemma nested_parse:
  "parse_file ascii_db (\<lambda>_ _. nested_tree) nested_source (str ''t.py'') ''python''
   = Inr [nested_A, nested_B, nested_m]"
  by (simp add: fixture_defs PYTHON_SPEC_def python_text_defs extractor_defs)

lemma max_size_parse:
  "parse_file ascii_db (\<lambda>_ _. max_size_tree) max_size_source (str ''t.py'') ''python''
   = Inr [max_size_constant, max_size_f]"
  by (simp add: fixture_defs PYTHON_SPEC_def python_text_defs extractor_defs)

lemma max_retry_parse:
  "parse_file ascii_db (\<lambda>_ _. max_retry_tree) max_retry_source (str ''app.js'') ''javascript''
   = Inr [max_retry_f]"
  by (simp add: fixture_defs JAVASCRIPT_SPEC_def python_text_defs extractor_defs)


section \<open>General facts about the walker\<close>

text \<open>
  The recursion of the walker, with the parameters that never change left out of the
  induction predicates.
\<close>

lemma walk_tree_unfold:
  "walk_tree db n spec src fn lang symbols p prevs =
     (case symbol_step n spec src fn lang symbols p prevs of
        Inl e \<Rightarrow> Inl e
      | Inr (symbols1, p1) \<Rightarrow>
          (case constant_step db n spec src fn lang symbols1 p1 of
             Inl e \<Rightarrow> Inl e
           | Inr symbols2 \<Rightarrow> walk_children db (children n) spec src fn lang symbols2 p1 []))"
proof (cases n)
  case (Node t f nm err sb eb sp ep cs)
  show ?thesis unfolding Node by (simp add: Let_def split: sum.splits prod.splits)
qed

lemma walk_induct [case_names node nil cons]:
  assumes node: "\<And>n symbols p prevs.
      (\<And>symbols1 p1 symbols2.
          symbol_step n spec src fn lang symbols p prevs = Inr (symbols1, p1)
          \<Longrightarrow> constant_step db n spec src fn lang symbols1 p1 = Inr symbols2
          \<Longrightarrow> Q (children n) symbols2 p1 [])
      \<Longrightarrow> P n symbols p prevs"
    and nil: "\<And>symbols p prevs. Q [] symbols p prevs"
    and cons: "\<And>child rest symbols p prevs.
      P child symbols p prevs
      \<Longrightarrow> (\<And>symbols'. walk_tree db child spec src fn lang symbols p prevs = Inr symbols'
            \<Longrightarrow> Q rest symbols' p (child # prevs))
      \<Longrightarrow> Q (child # rest) symbols p prevs"
  shows "P n symbols p prevs" and "Q cs symbols p prevs"
proof -
  {
  fix db' db'' :: unicode_db and spec' spec'' :: language_spec and src' src'' :: "byte list"
    and fn' fn'' :: str and lang' lang'' :: string
  have "(db' = db \<and> spec' = spec \<and> src' = src \<and> fn' = fn \<and> lang' = lang
          \<longrightarrow> P n symbols p prevs)"
    and "(db'' = db \<and> spec'' = spec \<and> src'' = src \<and> fn'' = fn \<and> lang'' = lang
          \<longrightarrow> Q cs symbols p prevs)"
  proof (induction db' n spec' src' fn' lang' symbols p prevs
          and db'' cs spec'' src'' fn'' lang'' symbols p prevs
          rule: walk_tree_walk_children.induct)
    case (1 db' t f nm err sb eb sp ep cs spec' src' fn' lang' symbols p prevs)
    show ?case
    proof (intro impI)
      assume eq: "db' = db \<and> spec' = spec \<and> src' = src \<and> fn' = fn \<and> lang' = lang"
      let ?n = "Node t f nm err sb eb sp ep cs"
      show "P ?n symbols p prevs"
      proof (rule node)
        fix symbols1 p1 symbols2
        assume r1: "symbol_step ?n spec src fn lang symbols p prevs = Inr (symbols1, p1)"
          and r2: "constant_step db ?n spec src fn lang symbols1 p1 = Inr symbols2"
        from r1 r2 eq have
          "symbol_step ?n spec' src' fn' lang' symbols p prevs = Inr (symbols1, p1)"
          "constant_step db' ?n spec' src' fn' lang' symbols1 p1 = Inr symbols2"
          by simp_all
        from "1.IH"[OF refl this(1) refl this(2)] eq
        show "Q (children ?n) symbols2 p1 []" by simp
      qed
    qed
  next
    case (2 db' spec' src' fn' lang' symbols p prevs)
    show ?case by (simp add: nil)
  next
    case (3 db' child rest spec' src' fn' lang' symbols p prevs)
    show ?case
    proof (intro impI)
      assume eq: "db' = db \<and> spec' = spec \<and> src' = src \<and> fn' = fn \<and> lang' = lang"
      show "Q (child # rest) symbols p prevs"
      proof (rule cons)
        show "P child symbols p prevs" using eq "3.IH"(1) by simp
      next
        fix symbols'
        assume "walk_tree db child spec src fn lang symbols p prevs = Inr symbols'"
        with eq "3.IH"(2) show "Q rest symbols' p (child # prevs)" by simp
      qed
    qed
  qed
  }
  note gen = this
  show "P n symbols p prevs" using gen(1)[of db spec src fn lang] by simp
  show "Q cs symbols p prevs" using gen(2)[of db spec src fn lang] by simp
qed

lemma symbol_step_emitted:
  assumes "symbol_step n spec src fn lang symbols p prevs = Inr (symbols1, p1)"
  shows "(symbols1 = symbols \<and> p1 = p)
         \<or> (\<exists>s. symbols1 = symbols @ [s] \<and> p1 = Some s
                \<and> symbol_node_types spec (ntype n) \<noteq> None
                \<and> extract_symbol n spec src fn lang p prevs = Inr (Some s))"
  using assms by (auto simp: symbol_step_def split: if_splits sum.splits option.splits)

lemma constant_step_emitted:
  assumes "constant_step db n spec src fn lang symbols1 p1 = Inr symbols2"
  shows "symbols2 = symbols1
         \<or> (\<exists>s. symbols2 = symbols1 @ [s] \<and> p1 = None
                \<and> ntype n \<in> set (constant_patterns spec)
                \<and> extract_constant db n spec src fn lang = Inr (Some s))"
  using assms by (auto simp: constant_step_def split: if_splits sum.splits option.splits)

lemma symbol_step_new:
  assumes "symbol_step n spec src fn lang symbols p prevs = Inr (symbols1, p1)"
  shows "\<exists>new. symbols1 = symbols @ new
           \<and> (\<forall>s\<in>set new. emitted_at db spec src fn lang n s)"
  using symbol_step_emitted[OF assms]
proof
  assume "symbols1 = symbols \<and> p1 = p"
  then show ?thesis by simp
next
  assume "\<exists>s. symbols1 = symbols @ [s] \<and> p1 = Some s
            \<and> symbol_node_types spec (ntype n) \<noteq> None
            \<and> extract_symbol n spec src fn lang p prevs = Inr (Some s)"
  then obtain s where s: "symbols1 = symbols @ [s]"
    "symbol_node_types spec (ntype n) \<noteq> None"
    "extract_symbol n spec src fn lang p prevs = Inr (Some s)"
    by blast
  have "emitted_at db spec src fn lang n s"
    unfolding emitted_at_def using s(2,3) by blast
  with s(1) show ?thesis by (intro exI[of _ "[s]"]) simp
qed

lemma constant_step_new:
  assumes "constant_step db n spec src fn lang symbols1 p1 = Inr symbols2"
  shows "\<exists>new. symbols2 = symbols1 @ new
           \<and> (\<forall>s\<in>set new. emitted_at db spec src fn lang n s)"
  using constant_step_emitted[OF assms]
proof
  assume "symbols2 = symbols1"
  then show ?thesis by simp
next
  assume "\<exists>s. symbols2 = symbols1 @ [s] \<and> p1 = None
            \<and> ntype n \<in> set (constant_patterns spec)
            \<and> extract_constant db n spec src fn lang = Inr (Some s)"
  then obtain s where s: "symbols2 = symbols1 @ [s]"
    "ntype n \<in> set (constant_patterns spec)"
    "extract_constant db n spec src fn lang = Inr (Some s)"
    by blast
  have "emitted_at db spec src fn lang n s"
    unfolding emitted_at_def using s(2,3) by blast
  with s(1) show ?thesis by (intro exI[of _ "[s]"]) simp
qed

lemma subnodes_self: "n \<in> set (subnodes n)"
  by (cases n) simp

lemma subnodes_child:
  "c \<in> set (children n) \<Longrightarrow> m \<in> set (subnodes c) \<Longrightarrow> m \<in> set (subnodes n)"
  by (cases n) auto

lemma walk_emitted:
  "walk_tree db n spec src fn lang symbols p prevs = Inr out \<Longrightarrow>
     \<exists>new. out = symbols @ new
       \<and> (\<forall>s\<in>set new. \<exists>m\<in>set (subnodes n). emitted_at db spec src fn lang m s)"
  "walk_children db cs spec src fn lang symbols p prevs = Inr out \<Longrightarrow>
     \<exists>new. out = symbols @ new
       \<and> (\<forall>s\<in>set new. \<exists>c\<in>set cs. \<exists>m\<in>set (subnodes c).
             emitted_at db spec src fn lang m s)"
proof (induction n symbols p prevs and cs symbols p prevs arbitrary: out and out
       rule: walk_induct[where db = db and spec = spec and src = src and fn = fn and lang = lang])
  case (node n symbols p prevs)
  from node.prems obtain symbols1 p1 symbols2 where
    s1: "symbol_step n spec src fn lang symbols p prevs = Inr (symbols1, p1)" and
    s2: "constant_step db n spec src fn lang symbols1 p1 = Inr symbols2" and
    w: "walk_children db (children n) spec src fn lang symbols2 p1 [] = Inr out"
    by (auto simp: walk_tree_unfold split: sum.splits)
  from node.IH[OF s1 s2 w] obtain new where
    new: "out = symbols2 @ new"
      "\<forall>s\<in>set new. \<exists>c\<in>set (children n). \<exists>m\<in>set (subnodes c).
          emitted_at db spec src fn lang m s"
    by blast
  from symbol_step_new[OF s1] obtain new1 where
    n1: "symbols1 = symbols @ new1" "\<forall>s\<in>set new1. emitted_at db spec src fn lang n s"
    by blast
  from constant_step_new[OF s2] obtain new2 where
    n2: "symbols2 = symbols1 @ new2" "\<forall>s\<in>set new2. emitted_at db spec src fn lang n s"
    by blast
  have "out = symbols @ (new1 @ new2 @ new)" using new(1) n1(1) n2(1) by simp
  moreover have "\<forall>s\<in>set (new1 @ new2 @ new). \<exists>m\<in>set (subnodes n).
      emitted_at db spec src fn lang m s"
    using new(2) n1(2) n2(2) subnodes_self[of n] subnodes_child[of _ n]
    by (metis Un_iff set_append)
  ultimately show ?case by blast
next
  case (nil symbols p prevs)
  then show ?case by simp
next
  case (cons child rest symbols p prevs)
  from cons.prems obtain symbols' where
    w1: "walk_tree db child spec src fn lang symbols p prevs = Inr symbols'" and
    w2: "walk_children db rest spec src fn lang symbols' p (child # prevs) = Inr out"
    by (auto split: sum.splits)
  from cons.IH(1)[OF w1] obtain new1 where
    n1: "symbols' = symbols @ new1"
      "\<forall>s\<in>set new1. \<exists>m\<in>set (subnodes child). emitted_at db spec src fn lang m s"
    by blast
  from cons.IH(2)[OF w1 w2] obtain new2 where
    n2: "out = symbols' @ new2"
      "\<forall>s\<in>set new2. \<exists>c\<in>set rest. \<exists>m\<in>set (subnodes c).
          emitted_at db spec src fn lang m s"
    by blast
  have "out = symbols @ (new1 @ new2)" using n1(1) n2(1) by simp
  moreover have "\<forall>s\<in>set (new1 @ new2). \<exists>c\<in>set (child # rest).
      \<exists>m\<in>set (subnodes c). emitted_at db spec src fn lang m s"
    using n1(2) n2(2) by auto
  ultimately show ?case by blast
qed

section \<open>What the extraction functions return\<close>

lemma extract_symbol_Some:
  assumes "extract_symbol m spec src fn lang p prevs = Inr (Some s)"
  shows "\<exists>k name'. symbol_node_types spec (ntype m) = Some k \<and> \<not> has_error m
           \<and> extract_name m spec src = Inr (Some name') \<and> name' \<noteq> []
           \<and> name s = name'
           \<and> qualified_name s = (case p of Some ps \<Rightarrow> name ps @ str ''.'' @ name' | None \<Rightarrow> name')
           \<and> kind s = (case p of Some ps \<Rightarrow> if k = ''function'' then ''method'' else k
                                  | None \<Rightarrow> k)
           \<and> parent s = (case p of Some ps \<Rightarrow> Some (symbol_id ps) | None \<Rightarrow> None)
           \<and> symbol_id s = make_symbol_id fn (qualified_name s)
           \<and> build_signature m spec src = Inr (signature s)
           \<and> extract_docstring m spec src prevs = Inr (docstring s)"
proof (cases "symbol_node_types spec (ntype m)")
  case None
  with assms show ?thesis by (simp add: extract_symbol_def)
next
  case (Some k)
  note k = this
  show ?thesis
  proof (cases "has_error m")
    case True
    with assms k show ?thesis by (simp add: extract_symbol_def)
  next
    case False
    note ne = this
    show ?thesis
    proof (cases "extract_name m spec src")
      case (Inl e)
      with assms k ne show ?thesis by (simp add: extract_symbol_def)
    next
      case (Inr on)
      note on = this
      show ?thesis
      proof (cases on)
        case None
        with assms k ne on show ?thesis by (simp add: extract_symbol_def)
      next
        case (Some name')
        note nm = this
        show ?thesis
        proof (cases "name' = []")
          case True
          with assms k ne on nm show ?thesis by (simp add: extract_symbol_def)
        next
          case False
          note nn = this
          show ?thesis
          proof (cases "build_signature m spec src")
            case (Inl e)
            with assms k ne on nm nn show ?thesis by (simp add: extract_symbol_def Let_def)
          next
            case (Inr sig)
            note sg = this
            show ?thesis
            proof (cases "extract_docstring m spec src prevs")
              case (Inl e)
              with assms k ne on nm nn sg show ?thesis
                by (simp add: extract_symbol_def Let_def)
            next
              case (Inr doc)
              note dc = this
              show ?thesis
              proof (cases "extract_decorators spec src prevs")
                case (Inl e)
                with assms k ne on nm nn sg dc show ?thesis
                  by (simp add: extract_symbol_def Let_def)
              next
                case (Inr decs)
                with assms k ne on nm nn sg dc
                have "s = \<lparr> symbol_id = make_symbol_id fn
                            (case p of Some ps \<Rightarrow> name ps @ str ''.'' @ name' | None \<Rightarrow> name'),
                          file = fn, name = name',
                          qualified_name =
                            (case p of Some ps \<Rightarrow> name ps @ str ''.'' @ name' | None \<Rightarrow> name'),
                          kind = (case p of Some ps \<Rightarrow> if k = ''function'' then ''method'' else k
                                  | None \<Rightarrow> k),
                          language = lang, signature = sig, docstring = doc, summary = [],
                          decorators = decs, search_keywords = [],
                          parent = (case p of Some ps \<Rightarrow> Some (symbol_id ps) | None \<Rightarrow> None),
                          line = fst (start_point m) + 1, end_line = fst (end_point m) + 1,
                          byte_offset = start_byte m,
                          byte_length = end_byte m - start_byte m \<rparr>"
                  by (simp add: extract_symbol_def Let_def)
                with k ne on nm nn sg dc show ?thesis by simp
              qed
            qed
          qed
        qed
      qed
    qed
  qed
qed

lemma extract_symbol_kind:
  assumes "extract_symbol m spec src fn lang p prevs = Inr (Some s)"
  shows "\<exists>k. symbol_node_types spec (ntype m) = Some k
           \<and> (case p of
                 None \<Rightarrow> parent s = None \<and> kind s = k
               | Some ps \<Rightarrow> parent s = Some (symbol_id ps)
                            \<and> kind s = (if k = ''function'' then ''method'' else k))"
proof -
  from extract_symbol_Some[OF assms] obtain k where
    k: "symbol_node_types spec (ntype m) = Some k" and
    kd: "kind s = (case p of Some ps \<Rightarrow> if k = ''function'' then ''method'' else k
                          | None \<Rightarrow> k)" and
    pr: "parent s = (case p of Some ps \<Rightarrow> Some (symbol_id ps) | None \<Rightarrow> None)"
    by blast
  show ?thesis
  proof (cases p)
    case None
    with k kd pr show ?thesis by simp
  next
    case (Some ps)
    with k kd pr show ?thesis by simp
  qed
qed

lemma extract_constant_result:
  assumes "extract_constant db m spec src fn lang = Inr (Some s)"
  shows "ntype m = ''assignment'' \<and> kind s = ''constant'' \<and> parent s = None"
  using assms
  by (auto simp: extract_constant_def split: option.splits if_splits sum.splits)

lemma registry_cases:
  assumes "LANGUAGE_REGISTRY lang = Some spec"
  shows "(lang = ''python'' \<and> spec = PYTHON_SPEC) \<or> (lang = ''javascript'' \<and> spec = JAVASCRIPT_SPEC)
       \<or> (lang = ''typescript'' \<and> spec = TYPESCRIPT_SPEC) \<or> (lang = ''go'' \<and> spec = GO_SPEC)
       \<or> (lang = ''rust'' \<and> spec = RUST_SPEC) \<or> (lang = ''java'' \<and> spec = JAVA_SPEC)"
  using assms by (auto simp: LANGUAGE_REGISTRY_def split: if_splits)

lemmas spec_defs = PYTHON_SPEC_def JAVASCRIPT_SPEC_def TYPESCRIPT_SPEC_def GO_SPEC_def
  RUST_SPEC_def JAVA_SPEC_def

lemma registry_assignment_unmapped:
  assumes "LANGUAGE_REGISTRY lang = Some spec"
  shows "symbol_node_types spec ''assignment'' = None"
  using registry_cases[OF assms]
  by (elim disjE conjE) (simp_all add: spec_defs)

lemma registry_kinds:
  assumes "LANGUAGE_REGISTRY lang = Some spec" and "symbol_node_types spec t = Some k"
  shows "k \<noteq> ''constant''"
  using registry_cases[OF assms(1)]
proof (elim disjE conjE)
  assume "spec = PYTHON_SPEC"
  with assms(2) show ?thesis by (auto simp: PYTHON_SPEC_def split: if_splits)
next
  assume "spec = JAVASCRIPT_SPEC"
  with assms(2) show ?thesis by (auto simp: JAVASCRIPT_SPEC_def split: if_splits)
next
  assume "spec = TYPESCRIPT_SPEC"
  with assms(2) show ?thesis by (auto simp: TYPESCRIPT_SPEC_def split: if_splits)
next
  assume "spec = GO_SPEC"
  with assms(2) show ?thesis by (auto simp: GO_SPEC_def split: if_splits)
next
  assume "spec = RUST_SPEC"
  with assms(2) show ?thesis by (auto simp: RUST_SPEC_def split: if_splits)
next
  assume "spec = JAVA_SPEC"
  with assms(2) show ?thesis by (auto simp: JAVA_SPEC_def split: if_splits)
qed

lemma registry_assignment_pattern:
  assumes "LANGUAGE_REGISTRY lang = Some spec" and "''assignment'' \<in> set (constant_patterns spec)"
  shows "lang = ''python''"
  using registry_cases[OF assms(1)] assms(2)
  by (elim disjE conjE) (simp_all add: spec_defs)

lemma parse_file_walk:
  assumes "LANGUAGE_REGISTRY lang = Some spec" and "encode content = Inr src"
  shows "parse_file db gp content fn lang
         = walk_tree db (gp (ts_language spec) src) spec src fn lang [] None []"
  using assms by (simp add: parse_file_def)

text \<open>The name test of \<^verbatim>\<open>_extract_constant\<close> is the test that the specification words.\<close>

lemma constant_name_accepted:
  "constant_name db s = accepted_constant_name db s"
proof (cases s)
  case Nil
  then show ?thesis
    by (simp add: constant_name_def accepted_constant_name_def isupper_def
        entirely_upper_case_def mixed_case_def begins_with_upper_def)
next
  case (Cons c r)
  show ?thesis
  proof (cases "list_ex (is_lower db) s")
    case False
    then have "\<not> is_lower db c" using Cons by simp
    with False Cons show ?thesis
      by (auto simp: constant_name_def accepted_constant_name_def isupper_def
          entirely_upper_case_def mixed_case_def begins_with_upper_def)
  next
    case True
    have len: "1 < length s" if "\<not> is_lower db c"
    proof -
      from True that Cons have "list_ex (is_lower db) r" by simp
      then have "r \<noteq> []" by auto
      with Cons show ?thesis by simp
    qed
    from True Cons len show ?thesis
      by (auto simp: constant_name_def accepted_constant_name_def isupper_def
          entirely_upper_case_def mixed_case_def begins_with_upper_def)
  qed
qed

section \<open>The only error of a walk is the decoding error\<close>

lemma decode_Inl: "decode bs = Inl e \<Longrightarrow> e = UnicodeDecodeError"
  by (simp add: decode_def split: option.splits)

lemma node_text_Inl: "node_text src n = Inl e \<Longrightarrow> e = UnicodeDecodeError"
  by (simp add: node_text_def decode_range_def decode_Inl)

lemma map_result_Inl: "map_result f r = Inl e \<Longrightarrow> r = Inl e"
  by (cases r) (simp_all add: map_result_def)

lemma type_spec_name_Inl:
  "type_spec_name cs src = Inl e \<Longrightarrow> e = UnicodeDecodeError"
proof (induction cs)
  case Nil
  then show ?case by simp
next
  case (Cons child rest)
  show ?case
  proof (cases "ntype child = ''type_spec''")
    case False
    with Cons show ?thesis by simp
  next
    case True
    show ?thesis
    proof (cases "child_by_field_name child ''name''")
      case None
      with Cons True show ?thesis by simp
    next
      case (Some name_node)
      with Cons.prems True have "node_text src name_node = Inl e"
        by (simp add: map_result_Inl)
      then show ?thesis by (rule node_text_Inl)
    qed
  qed
qed

lemma extract_name_Inl:
  assumes "extract_name n spec src = Inl e"
  shows "e = UnicodeDecodeError"
proof (cases "ntype n = ''arrow_function''")
  case True
  with assms show ?thesis by (simp add: extract_name_def)
next
  case a: False
  show ?thesis
  proof (cases "ntype n = ''type_declaration''")
    case True
    with assms a show ?thesis by (simp add: extract_name_def type_spec_name_Inl)
  next
    case b: False
    show ?thesis
    proof (cases "name_fields spec (ntype n)")
      case None
      with assms a b show ?thesis by (simp add: extract_name_def)
    next
      case (Some field)
      show ?thesis
      proof (cases "child_by_field_name n field")
        case None
        with assms a b Some show ?thesis by (simp add: extract_name_def)
      next
        case c: (Some name_node)
        with assms a b Some have "node_text src name_node = Inl e"
          by (simp add: extract_name_def map_result_Inl)
        then show ?thesis by (rule node_text_Inl)
      qed
    qed
  qed
qed

lemma build_signature_Inl:
  assumes "build_signature n spec src = Inl e"
  shows "e = UnicodeDecodeError"
proof -
  from assms obtain a b where "decode_range src a b = Inl e"
    unfolding build_signature_def Let_def by (blast dest: map_result_Inl)
  then show ?thesis by (simp add: decode_range_def decode_Inl)
qed

lemma expression_statement_docstring_Inl:
  assumes "expression_statement_docstring child src = Some (Inl e)"
  shows "e = UnicodeDecodeError"
proof -
  from assms obtain x where "map_result strip_quotes (node_text src x) = Inl e"
    unfolding expression_statement_docstring_def
    by (auto split: option.splits list.splits if_splits)
  then have "node_text src x = Inl e" by (rule map_result_Inl)
  then show ?thesis by (rule node_text_Inl)
qed

lemma python_docstring_loop_Inl:
  "python_docstring_loop cs src = Inl e \<Longrightarrow> e = UnicodeDecodeError"
proof (induction cs)
  case Nil
  then show ?case by simp
next
  case (Cons child rest)
  show ?case
  proof (cases "ntype child = ''expression_statement''")
    case True
    show ?thesis
    proof (cases "expression_statement_docstring child src")
      case None
      with Cons True show ?thesis by simp
    next
      case (Some r)
      with Cons.prems True have "expression_statement_docstring child src = Some (Inl e)"
        by simp
      then show ?thesis by (rule expression_statement_docstring_Inl)
    qed
  next
    case a: False
    show ?thesis
    proof (cases "ntype child = ''string''")
      case True
      with Cons.prems a have "node_text src child = Inl e"
        by (simp add: map_result_Inl)
      then show ?thesis by (rule node_text_Inl)
    next
      case False
      with Cons a show ?thesis by simp
    qed
  qed
qed

lemma preceding_comments_loop_Inl:
  "preceding_comments_loop prevs src comments = Inl e \<Longrightarrow> e = UnicodeDecodeError"
proof (induction prevs arbitrary: comments)
  case Nil
  then show ?case by simp
next
  case (Cons prev earlier)
  show ?case
  proof (cases "is_named prev")
    case False
    with Cons show ?thesis by simp
  next
    case named: True
    show ?thesis
    proof (cases "ntype prev = ''comment'' \<or> ntype prev = ''line_comment''
              \<or> ntype prev = ''block_comment''")
      case False
      with Cons.prems named show ?thesis by simp
    next
      case True
      show ?thesis
      proof (cases "node_text src prev")
        case (Inl e')
        with Cons.prems named True have "e' = e" by simp
        with Inl node_text_Inl show ?thesis by blast
      next
        case (Inr t)
        with Cons.prems named True
        have "preceding_comments_loop earlier src (t # comments) = Inl e" by simp
        then show ?thesis by (rule Cons.IH)
      qed
    qed
  qed
qed

lemma decorators_loop_Inl:
  "decorators_loop prevs t src acc = Inl e \<Longrightarrow> e = UnicodeDecodeError"
proof (induction prevs arbitrary: acc)
  case Nil
  then show ?case by simp
next
  case (Cons prev earlier)
  show ?case
  proof (cases "is_named prev")
    case False
    with Cons show ?thesis by simp
  next
    case named: True
    show ?thesis
    proof (cases "ntype prev = t")
      case False
      with Cons.prems named show ?thesis by simp
    next
      case True
      show ?thesis
      proof (cases "node_text src prev")
        case (Inl e')
        with Cons.prems named True have "e' = e" by simp
        with Inl node_text_Inl show ?thesis by blast
      next
        case (Inr d)
        with Cons.prems named True
        have "decorators_loop earlier t src (strip d # acc) = Inl e" by simp
        then show ?thesis by (rule Cons.IH)
      qed
    qed
  qed
qed

lemma extract_docstring_Inl:
  assumes "extract_docstring n spec src prevs = Inl e"
  shows "e = UnicodeDecodeError"
proof (cases "docstring_strategy spec = ''next_sibling_string''")
  case True
  with assms have "extract_python_docstring n src = Inl e"
    by (simp add: extract_docstring_def)
  then show ?thesis
    by (auto simp: extract_python_docstring_def split: option.splits if_splits
        dest: python_docstring_loop_Inl)
next
  case a: False
  show ?thesis
  proof (cases "docstring_strategy spec = ''preceding_comment''")
    case True
    with assms a have "extract_preceding_comments prevs src = Inl e"
      by (simp add: extract_docstring_def)
    then show ?thesis
      by (auto simp: extract_preceding_comments_def split: sum.splits if_splits
          dest: preceding_comments_loop_Inl)
  next
    case False
    with assms a show ?thesis by (simp add: extract_docstring_def)
  qed
qed

lemma extract_decorators_Inl:
  assumes "extract_decorators spec src prevs = Inl e"
  shows "e = UnicodeDecodeError"
  using assms
  by (auto simp: extract_decorators_def split: option.splits if_splits
      dest: decorators_loop_Inl)

lemma extract_symbol_Inl:
  assumes "extract_symbol n spec src fn lang p prevs = Inl e"
    and mapped: "symbol_node_types spec (ntype n) \<noteq> None"
  shows "e = UnicodeDecodeError"
proof -
  from mapped obtain k where k: "symbol_node_types spec (ntype n) = Some k" by blast
  show ?thesis
  proof (cases "has_error n")
    case True
    with assms k show ?thesis by (simp add: extract_symbol_def)
  next
    case ne: False
    show ?thesis
    proof (cases "extract_name n spec src")
      case (Inl e')
      with assms(1) k ne have "e' = e" by (simp add: extract_symbol_def)
      with Inl extract_name_Inl show ?thesis by blast
    next
      case on: (Inr on)
      show ?thesis
      proof (cases on)
        case None
        with assms(1) k ne on show ?thesis by (simp add: extract_symbol_def)
      next
        case nm: (Some name')
        show ?thesis
        proof (cases "name' = []")
          case True
          with assms(1) k ne on nm show ?thesis by (simp add: extract_symbol_def)
        next
          case nn: False
          show ?thesis
          proof (cases "build_signature n spec src")
            case (Inl e')
            with assms(1) k ne on nm nn have "e' = e"
              by (simp add: extract_symbol_def Let_def)
            with Inl build_signature_Inl show ?thesis by blast
          next
            case sg: (Inr sig)
            show ?thesis
            proof (cases "extract_docstring n spec src prevs")
              case (Inl e')
              with assms(1) k ne on nm nn sg have "e' = e"
                by (simp add: extract_symbol_def Let_def)
              with Inl extract_docstring_Inl show ?thesis by blast
            next
              case dc: (Inr doc)
              show ?thesis
              proof (cases "extract_decorators spec src prevs")
                case (Inl e')
                with assms(1) k ne on nm nn sg dc have "e' = e"
                  by (simp add: extract_symbol_def Let_def)
                with Inl extract_decorators_Inl show ?thesis by blast
              next
                case (Inr decs)
                with assms(1) k ne on nm nn sg dc show ?thesis
                  by (simp add: extract_symbol_def Let_def)
              qed
            qed
          qed
        qed
      qed
    qed
  qed
qed

lemma extract_constant_Inl:
  assumes "extract_constant db n spec src fn lang = Inl e"
  shows "e = UnicodeDecodeError"
proof -
  from assms obtain x where "node_text src x = Inl e"
    unfolding extract_constant_def
    by (auto split: if_splits option.splits sum.splits)
  then show ?thesis by (rule node_text_Inl)
qed

lemma symbol_step_Inl:
  assumes "symbol_step n spec src fn lang symbols p prevs = Inl e"
  shows "e = UnicodeDecodeError"
proof (cases "symbol_node_types spec (ntype n) \<noteq> None")
  case False
  with assms show ?thesis by (simp add: symbol_step_def)
next
  case True
  with assms have "extract_symbol n spec src fn lang p prevs = Inl e"
    by (auto simp: symbol_step_def split: sum.splits option.splits)
  then show ?thesis using True by (rule extract_symbol_Inl)
qed

lemma constant_step_Inl:
  assumes "constant_step db n spec src fn lang symbols p = Inl e"
  shows "e = UnicodeDecodeError"
proof -
  from assms have "extract_constant db n spec src fn lang = Inl e"
    by (auto simp: constant_step_def split: if_splits sum.splits option.splits)
  then show ?thesis by (rule extract_constant_Inl)
qed

lemma walk_Inl:
  "walk_tree db n spec src fn lang symbols p prevs = Inl e \<Longrightarrow> e = UnicodeDecodeError"
  "walk_children db cs spec src fn lang symbols p prevs = Inl e \<Longrightarrow> e = UnicodeDecodeError"
proof (induction n symbols p prevs and cs symbols p prevs
       rule: walk_induct[where db = db and spec = spec and src = src and fn = fn and lang = lang])
  case (node n symbols p prevs)
  show ?case
  proof (cases "symbol_step n spec src fn lang symbols p prevs")
    case (Inl e')
    with node.prems have "e' = e" by (simp add: walk_tree_unfold)
    with Inl symbol_step_Inl show ?thesis by blast
  next
    case (Inr r)
    obtain symbols1 p1 where r: "r = (symbols1, p1)" by (cases r)
    show ?thesis
    proof (cases "constant_step db n spec src fn lang symbols1 p1")
      case (Inl e')
      with node.prems Inr r have "e' = e" by (simp add: walk_tree_unfold)
      with Inl constant_step_Inl show ?thesis by blast
    next
      case c: (Inr symbols2)
      with node.prems Inr r
      have "walk_children db (children n) spec src fn lang symbols2 p1 [] = Inl e"
        by (simp add: walk_tree_unfold)
      with node.IH[OF Inr[unfolded r] c] show ?thesis by simp
    qed
  qed
next
  case (nil symbols p prevs)
  then show ?case by simp
next
  case (cons child rest symbols p prevs)
  show ?case
  proof (cases "walk_tree db child spec src fn lang symbols p prevs")
    case (Inl e')
    with cons.prems have "e' = e" by simp
    with Inl cons.IH(1) show ?thesis by blast
  next
    case (Inr symbols')
    with cons.prems
    have "walk_children db rest spec src fn lang symbols' p (child # prevs) = Inl e" by simp
    with cons.IH(2)[OF Inr] show ?thesis by simp
  qed
qed

text \<open>
  A node at which \<^verbatim>\<open>_extract_symbol\<close> raises whatever the enclosing symbol and the
  siblings are: when it lies in the tree, the walk raises.
\<close>

lemma walk_reaches_failure:
  assumes mapped: "symbol_node_types spec (ntype m) \<noteq> None"
    and fails: "\<And>p prevs. \<exists>e. extract_symbol m spec src fn lang p prevs = Inl e"
  shows "m \<in> set (subnodes n) \<Longrightarrow>
           walk_tree db n spec src fn lang symbols p prevs = Inl UnicodeDecodeError"
    and "\<exists>c\<in>set cs. m \<in> set (subnodes c) \<Longrightarrow>
           walk_children db cs spec src fn lang symbols p prevs = Inl UnicodeDecodeError"
proof (induction n symbols p prevs and cs symbols p prevs
       rule: walk_induct[where db = db and spec = spec and src = src and fn = fn and lang = lang])
  case (node n symbols p prevs)
  show ?case
  proof (cases "m = n")
    case True
    from fails obtain e where "extract_symbol m spec src fn lang p prevs = Inl e" by blast
    with True mapped have "symbol_step n spec src fn lang symbols p prevs = Inl e"
      by (auto simp: symbol_step_def)
    then have "walk_tree db n spec src fn lang symbols p prevs = Inl e"
      by (simp add: walk_tree_unfold)
    with walk_Inl(1) show ?thesis by blast
  next
    case False
    with node.prems have below: "\<exists>c\<in>set (children n). m \<in> set (subnodes c)"
      by (cases n) auto
    show ?thesis
    proof (cases "walk_tree db n spec src fn lang symbols p prevs")
      case (Inl e)
      with walk_Inl(1) show ?thesis by blast
    next
      case (Inr out)
      then obtain symbols1 p1 symbols2 where
        s1: "symbol_step n spec src fn lang symbols p prevs = Inr (symbols1, p1)" and
        s2: "constant_step db n spec src fn lang symbols1 p1 = Inr symbols2" and
        w: "walk_children db (children n) spec src fn lang symbols2 p1 [] = Inr out"
        by (auto simp: walk_tree_unfold split: sum.splits)
      from node.IH[OF s1 s2 below] w show ?thesis by simp
    qed
  qed
next
  case (nil symbols p prevs)
  then show ?case by simp
next
  case (cons child rest symbols p prevs)
  show ?case
  proof (cases "walk_tree db child spec src fn lang symbols p prevs")
    case (Inl e)
    with walk_Inl(1) have "e = UnicodeDecodeError" by blast
    with Inl show ?thesis by simp
  next
    case (Inr symbols')
    have "\<not> m \<in> set (subnodes child)"
      using cons.IH(1) Inr by auto
    with cons.prems have "\<exists>c\<in>set rest. m \<in> set (subnodes c)" by auto
    from cons.IH(2)[OF Inr this] Inr show ?thesis by simp
  qed
qed

section \<open>A function raises exactly when one of its ranges is invalid\<close>

lemma decode_range_raises:
  "isl (decode_range src a b) = invalid_range src (a, b)"
  by (simp add: decode_range_def decode_def invalid_range_def split: option.splits)

lemma node_text_raises: "isl (node_text src n) = invalid_range src (node_range n)"
  by (simp add: node_text_def node_range_def decode_range_raises)

lemma map_result_raises: "isl (map_result f r) = isl r"
  by (cases r) (simp_all add: map_result_def)

lemma type_spec_name_raises:
  "isl (type_spec_name cs src) = list_ex (invalid_range src) (type_spec_name_ranges cs)"
  by (induction cs) (simp_all add: map_result_raises node_text_raises split: option.splits)

lemma extract_name_raises:
  "isl (extract_name n spec src) = list_ex (invalid_range src) (name_ranges n spec)"
  by (simp add: extract_name_def name_ranges_def type_spec_name_raises map_result_raises
      node_text_raises split: option.splits)

lemma build_signature_raises:
  "isl (build_signature n spec src) = invalid_range src (signature_range n)"
  by (simp add: build_signature_def signature_range_def Let_def map_result_raises
      decode_range_raises)

lemma expression_statement_docstring_range:
  "expression_statement_docstring child src
   = map_option (\<lambda>r. map_result strip_quotes (decode_range src (fst r) (snd r)))
       (expression_statement_docstring_range child)"
  by (simp add: expression_statement_docstring_def expression_statement_docstring_range_def
      node_text_def node_range_def split: option.splits list.splits)

lemma python_docstring_loop_raises:
  "isl (python_docstring_loop cs src)
   = list_ex (invalid_range src) (python_docstring_loop_ranges cs)"
proof (induction cs)
  case Nil
  show ?case by simp
next
  case (Cons child rest)
  show ?case
  proof (cases "expression_statement_docstring_range child")
    case None
    with Cons show ?thesis
      by (simp add: expression_statement_docstring_range map_result_raises node_text_raises)
  next
    case (Some r)
    with Cons show ?thesis
      by (cases r)
        (simp add: expression_statement_docstring_range map_result_raises node_text_raises
          decode_range_raises)
  qed
qed

lemma extract_python_docstring_raises:
  "isl (extract_python_docstring n src)
   = list_ex (invalid_range src) (python_docstring_ranges n)"
  by (simp add: extract_python_docstring_def python_docstring_ranges_def
      python_docstring_loop_raises split: option.splits)

lemma preceding_comments_loop_raises:
  "isl (preceding_comments_loop prevs src comments)
   = list_ex (invalid_range src) (preceding_comment_ranges prevs)"
proof (induction prevs arbitrary: comments)
  case Nil
  show ?case by simp
next
  case (Cons prev earlier)
  show ?case
  proof (cases "node_text src prev")
    case (Inl e)
    then have "invalid_range src (node_range prev)"
      using node_text_raises[of src prev] by simp
    with Inl show ?thesis by (simp add: Cons.IH)
  next
    case (Inr t)
    then have "\<not> invalid_range src (node_range prev)"
      using node_text_raises[of src prev] by simp
    with Inr show ?thesis by (simp add: Cons.IH)
  qed
qed

lemma extract_preceding_comments_raises:
  "isl (extract_preceding_comments prevs src)
   = list_ex (invalid_range src) (preceding_comment_ranges prevs)"
proof (cases "preceding_comments_loop prevs src []")
  case (Inl e)
  with preceding_comments_loop_raises[of prevs src "[]"] show ?thesis
    by (simp add: extract_preceding_comments_def)
next
  case (Inr comments)
  with preceding_comments_loop_raises[of prevs src "[]"] show ?thesis
    by (simp add: extract_preceding_comments_def)
qed

lemma extract_docstring_raises:
  "isl (extract_docstring n spec src prevs)
   = list_ex (invalid_range src) (docstring_ranges n spec prevs)"
  by (simp add: extract_docstring_def docstring_ranges_def extract_python_docstring_raises
      extract_preceding_comments_raises)

lemma decorators_loop_raises:
  "isl (decorators_loop prevs t src acc)
   = list_ex (invalid_range src) (decorators_loop_ranges prevs t)"
proof (induction prevs arbitrary: acc)
  case Nil
  show ?case by simp
next
  case (Cons prev earlier)
  show ?case
  proof (cases "node_text src prev")
    case (Inl e)
    then have "invalid_range src (node_range prev)"
      using node_text_raises[of src prev] by simp
    with Inl show ?thesis by (simp add: Cons.IH)
  next
    case (Inr d)
    then have "\<not> invalid_range src (node_range prev)"
      using node_text_raises[of src prev] by simp
    with Inr show ?thesis by (simp add: Cons.IH)
  qed
qed

lemma extract_decorators_raises:
  "isl (extract_decorators spec src prevs)
   = list_ex (invalid_range src) (decorator_ranges spec prevs)"
  by (simp add: extract_decorators_def decorator_ranges_def decorators_loop_raises
      split: option.splits)

lemma extract_symbol_raises:
  assumes mapped: "symbol_node_types spec (ntype n) \<noteq> None"
  shows "isl (extract_symbol n spec src fn lang p prevs)
         = list_ex (invalid_range src) (symbol_ranges n spec src prevs)"
proof -
  from mapped obtain k where k: "symbol_node_types spec (ntype n) = Some k" by blast
  show ?thesis
  proof (cases "has_error n")
    case True
    with k show ?thesis by (simp add: extract_symbol_def symbol_ranges_def)
  next
    case ne: False
    show ?thesis
    proof (cases "extract_name n spec src")
      case (Inl e)
      with extract_name_raises[of n spec src]
      have "list_ex (invalid_range src) (name_ranges n spec)" by simp
      with Inl k ne show ?thesis by (simp add: extract_symbol_def symbol_ranges_def)
    next
      case on: (Inr on)
      with extract_name_raises[of n spec src]
      have ok: "\<not> list_ex (invalid_range src) (name_ranges n spec)" by simp
      show ?thesis
      proof (cases on)
        case None
        with on k ne ok show ?thesis by (simp add: extract_symbol_def symbol_ranges_def)
      next
        case nm: (Some name')
        show ?thesis
        proof (cases "name' = []")
          case True
          with on nm k ne ok show ?thesis by (simp add: extract_symbol_def symbol_ranges_def)
        next
          case nn: False
          have "isl (extract_symbol n spec src fn lang p prevs)
              = (isl (build_signature n spec src)
                 \<or> isl (extract_docstring n spec src prevs)
                 \<or> isl (extract_decorators spec src prevs))"
            using on nm k ne nn
            by (simp add: extract_symbol_def Let_def split: sum.splits)
          also have "\<dots> = list_ex (invalid_range src)
              (signature_range n # docstring_ranges n spec prevs @ decorator_ranges spec prevs)"
            by (simp add: build_signature_raises extract_docstring_raises
                extract_decorators_raises)
          also have "\<dots> = list_ex (invalid_range src) (symbol_ranges n spec src prevs)"
            using on nm ne nn ok by (simp add: symbol_ranges_def)
          finally show ?thesis .
        qed
      qed
    qed
  qed
qed

lemma extract_constant_raises:
  "isl (extract_constant db n spec src fn lang)
   = list_ex (invalid_range src) (constant_ranges db n src)"
proof (cases "ntype n = ''assignment''")
  case False
  then show ?thesis by (simp add: extract_constant_def constant_ranges_def)
next
  case a: True
  show ?thesis
  proof (cases "child_by_field_name n ''left''")
    case None
    with a show ?thesis by (simp add: extract_constant_def constant_ranges_def)
  next
    case (Some left)
    show ?thesis
    proof (cases "ntype left = ''identifier''")
      case False
      with a Some show ?thesis by (simp add: extract_constant_def constant_ranges_def)
    next
      case i: True
      show ?thesis
      proof (cases "node_text src left")
        case (Inl e)
        with node_text_raises[of src left] have "invalid_range src (node_range left)" by simp
        with Inl a Some i show ?thesis by (simp add: extract_constant_def constant_ranges_def)
      next
        case (Inr name')
        with node_text_raises[of src left] have "\<not> invalid_range src (node_range left)"
          by simp
        then have left_ok: "\<not> invalid_range src (node_range left)" .
        show ?thesis
        proof (cases "constant_name db name'")
          case False
          with Inr a Some i left_ok show ?thesis
            by (simp add: extract_constant_def constant_ranges_def)
        next
          case c: True
          show ?thesis
          proof (cases "node_text src n")
            case (Inl e)
            with node_text_raises[of src n] have "invalid_range src (node_range n)" by simp
            with Inl Inr a Some i c show ?thesis
              by (simp add: extract_constant_def constant_ranges_def)
          next
            case whole: (Inr whole_text)
            with node_text_raises[of src n] have "\<not> invalid_range src (node_range n)"
              by simp
            with whole Inr a Some i c left_ok show ?thesis
              by (simp add: extract_constant_def constant_ranges_def)
          qed
        qed
      qed
    qed
  qed
qed

lemma symbol_step_raises:
  "isl (symbol_step n spec src fn lang symbols p prevs)
   = list_ex (invalid_range src)
       (if symbol_node_types spec (ntype n) \<noteq> None then symbol_ranges n spec src prevs else [])"
proof (cases "symbol_node_types spec (ntype n) \<noteq> None")
  case False
  then show ?thesis by (simp add: symbol_step_def)
next
  case True
  have "isl (symbol_step n spec src fn lang symbols p prevs)
      = isl (extract_symbol n spec src fn lang p prevs)"
    using True by (simp add: symbol_step_def split: sum.splits option.splits)
  with extract_symbol_raises[OF True, of src fn lang p prevs] True show ?thesis by simp
qed

lemma symbol_step_enclosing:
  assumes "symbol_step n spec src fn lang symbols p prevs = Inr (symbols1, p1)"
  shows "p1 = enclosing_symbol n spec src fn lang p prevs"
  using assms
  by (auto simp: symbol_step_def enclosing_symbol_def split: if_splits sum.splits option.splits)

lemma constant_step_raises:
  "isl (constant_step db n spec src fn lang symbols p1)
   = list_ex (invalid_range src)
       (if ntype n \<in> set (constant_patterns spec) \<and> p1 = None
        then constant_ranges db n src else [])"
proof (cases "ntype n \<in> set (constant_patterns spec) \<and> p1 = None")
  case False
  then have "constant_step db n spec src fn lang symbols p1 = Inr symbols"
    unfolding constant_step_def by (simp only: if_False)
  moreover have "(if ntype n \<in> set (constant_patterns spec) \<and> p1 = None
      then constant_ranges db n src else []) = []"
    using False by (simp only: if_False)
  ultimately show ?thesis by simp
next
  case True
  have "isl (constant_step db n spec src fn lang symbols p1)
      = isl (extract_constant db n spec src fn lang)"
    using True by (simp add: constant_step_def split: sum.splits option.splits)
  with extract_constant_raises[of db n spec src fn lang] True show ?thesis by simp
qed

lemma walk_ranges_unfold:
  "walk_ranges db n spec src fn lang p prevs =
     (if symbol_node_types spec (ntype n) \<noteq> None then symbol_ranges n spec src prevs else [])
     @ (if ntype n \<in> set (constant_patterns spec)
           \<and> enclosing_symbol n spec src fn lang p prevs = None
        then constant_ranges db n src else [])
     @ children_ranges db (children n) spec src fn lang
         (enclosing_symbol n spec src fn lang p prevs) []"
  by (cases n) (simp add: Let_def)

lemma walk_raises:
  "isl (walk_tree db n spec src fn lang symbols p prevs)
   = list_ex (invalid_range src) (walk_ranges db n spec src fn lang p prevs)"
  "isl (walk_children db cs spec src fn lang symbols p prevs)
   = list_ex (invalid_range src) (children_ranges db cs spec src fn lang p prevs)"
proof (induction n symbols p prevs and cs symbols p prevs
       rule: walk_induct[where db = db and spec = spec and src = src and fn = fn and lang = lang])
  case (node n symbols p prevs)
  let ?own = "if symbol_node_types spec (ntype n) \<noteq> None
      then symbol_ranges n spec src prevs else []"
  let ?p1 = "enclosing_symbol n spec src fn lang p prevs"
  let ?const = "if ntype n \<in> set (constant_patterns spec) \<and> ?p1 = None
      then constant_ranges db n src else []"
  show ?case
  proof (cases "symbol_step n spec src fn lang symbols p prevs")
    case (Inl e)
    with symbol_step_raises[of n spec src fn lang symbols p prevs]
    have "list_ex (invalid_range src) ?own" by simp
    with Inl show ?thesis by (simp add: walk_tree_unfold walk_ranges_unfold)
  next
    case (Inr r)
    obtain symbols1 p1 where r: "r = (symbols1, p1)" by (cases r)
    from Inr r have s1: "symbol_step n spec src fn lang symbols p prevs = Inr (symbols1, p1)"
      by simp
    from symbol_step_enclosing[OF s1] have p1: "p1 = ?p1" .
    from s1 symbol_step_raises[of n spec src fn lang symbols p prevs]
    have own: "\<not> list_ex (invalid_range src) ?own" by simp
    show ?thesis
    proof (cases "constant_step db n spec src fn lang symbols1 p1")
      case (Inl e)
      with constant_step_raises[of db n spec src fn lang symbols1 p1] p1
      have "list_ex (invalid_range src) ?const" by simp
      with s1 Inl show ?thesis by (simp add: walk_tree_unfold walk_ranges_unfold)
    next
      case c: (Inr symbols2)
      with constant_step_raises[of db n spec src fn lang symbols1 p1] p1
      have const: "\<not> list_ex (invalid_range src) ?const" by simp
      from node.IH[OF s1 c] p1
      have "isl (walk_children db (children n) spec src fn lang symbols2 p1 [])
          = list_ex (invalid_range src) (children_ranges db (children n) spec src fn lang ?p1 [])"
        by simp
      moreover have "walk_tree db n spec src fn lang symbols p prevs
          = walk_children db (children n) spec src fn lang symbols2 p1 []"
        using s1 c by (simp add: walk_tree_unfold)
      moreover have "list_ex (invalid_range src) (walk_ranges db n spec src fn lang p prevs)
          = list_ex (invalid_range src) (children_ranges db (children n) spec src fn lang ?p1 [])"
        using own const by (subst walk_ranges_unfold) simp
      ultimately show ?thesis by simp
    qed
  qed
next
  case (nil symbols p prevs)
  show ?case by simp
next
  case (cons child rest symbols p prevs)
  show ?case
  proof (cases "walk_tree db child spec src fn lang symbols p prevs")
    case (Inl e)
    with cons.IH(1) have "list_ex (invalid_range src)
        (walk_ranges db child spec src fn lang p prevs)" by simp
    with Inl show ?thesis by simp
  next
    case (Inr symbols')
    with cons.IH(1) have "\<not> list_ex (invalid_range src)
        (walk_ranges db child spec src fn lang p prevs)" by simp
    with Inr cons.IH(2)[OF Inr] show ?thesis by simp
  qed
qed

section \<open>Flattening a store\<close>

lemma flatten_nil: "flatten_tree st [] d = Some []"
  by (simp add: flatten_tree.simps)

lemma flatten_cons:
  "flatten_tree st (n # rest) d =
     (case st n of
        None \<Rightarrow> None
      | Some nd \<Rightarrow>
          Option.bind (flatten_tree st (node_children nd) (d + 1)) (\<lambda>below.
          Option.bind (flatten_tree st rest d) (\<lambda>after.
          Some ((symbol nd, d) # below @ after))))"
  by (subst flatten_tree.simps) simp

lemma flatten_cons_Some:
  assumes "flatten_tree st (n # rest) d = Some out"
  obtains nd below after where "st n = Some nd"
    "flatten_tree st (node_children nd) (d + 1) = Some below"
    "flatten_tree st rest d = Some after"
    "out = (symbol nd, d) # below @ after"
  using assms
  by (auto simp: flatten_cons split: option.splits Option.bind_splits)

lemma flatten_cons_intro:
  assumes "st n = Some nd"
    "flatten_tree st (node_children nd) (d + 1) = Some below"
    "flatten_tree st rest d = Some after"
  shows "flatten_tree st (n # rest) d = Some ((symbol nd, d) # below @ after)"
  using assms by (simp add: flatten_cons)

lemma flatten_append:
  assumes "flatten_tree st xs d = Some a" and "flatten_tree st ys d = Some b"
  shows "flatten_tree st (xs @ ys) d = Some (a @ b)"
  using assms
proof (induction xs arbitrary: a)
  case Nil
  then show ?case by (simp add: flatten_nil)
next
  case (Cons n rest)
  from Cons.prems(1) obtain nd below after where
    n: "st n = Some nd" and
    bl: "flatten_tree st (node_children nd) (d + 1) = Some below" and
    af: "flatten_tree st rest d = Some after" and
    a: "a = (symbol nd, d) # below @ after"
    by (rule flatten_cons_Some)
  from Cons.IH[OF af Cons.prems(2)]
  have "flatten_tree st (rest @ ys) d = Some (after @ b)" .
  with n bl a show ?case by (simp add: flatten_cons)
qed

lemma flatten_leaf:
  assumes "st r = Some nr" and "node_children nr = []"
  shows "flatten_tree st [r] d = Some [(symbol nr, d)]"
  using assms by (simp add: flatten_cons flatten_nil)

section \<open>Order in a list\<close>

lemma before_in_insert:
  assumes "before_in a b (l1 @ l2)"
  shows "before_in a b (l1 @ [x] @ l2)"
proof -
  from assms obtain m1 m2 where m: "l1 @ l2 = m1 @ m2" "a \<in> set m1" "b \<in> set m2"
    unfolding before_in_def by blast
  from m(1) consider
    (left) u where "l1 = m1 @ u" "m2 = u @ l2"
    | (right) u where "m1 = l1 @ u" "l2 = u @ m2"
    by (auto simp: append_eq_append_conv2)
  then show ?thesis
  proof cases
    case left
    have "l1 @ [x] @ l2 = m1 @ (u @ [x] @ l2)" using left by simp
    moreover have "b \<in> set (u @ [x] @ l2)" using m(3) left by auto
    ultimately show ?thesis unfolding before_in_def using m(2) by blast
  next
    case right
    have "l1 @ [x] @ l2 = (l1 @ [x] @ u) @ m2" using right by simp
    moreover have "a \<in> set (l1 @ [x] @ u)" using m(2) right by auto
    ultimately show ?thesis unfolding before_in_def using m(3) by blast
  qed
qed

lemma before_in_snoc:
  assumes "before_in a b xs"
  shows "before_in a b (xs @ [x])"
  using before_in_insert[of a b xs "[]" x] assms by simp

lemma before_in_new:
  assumes "a \<in> set l1"
  shows "before_in a x (l1 @ [x] @ l2)"
  unfolding before_in_def using assms by (intro exI[of _ l1] exI[of _ "[x] @ l2"]) simp

lemma before_in_map:
  assumes "before_in a b xs"
  shows "before_in (f a) (f b) (map f xs)"
proof -
  from assms obtain l1 l2 where "xs = l1 @ l2" "a \<in> set l1" "b \<in> set l2"
    unfolding before_in_def by blast
  then have "map f xs = map f l1 @ map f l2" "f a \<in> set (map f l1)" "f b \<in> set (map f l2)"
    by auto
  then show ?thesis unfolding before_in_def by blast
qed

lemma before_in_trans:
  assumes d: "distinct xs" and ab: "before_in a b xs" and bc: "before_in b c xs"
  shows "before_in a c xs"
proof -
  from ab obtain l1 l2 where l: "xs = l1 @ l2" "a \<in> set l1" "b \<in> set l2"
    unfolding before_in_def by blast
  from bc obtain m1 m2 where m: "xs = m1 @ m2" "b \<in> set m1" "c \<in> set m2"
    unfolding before_in_def by blast
  from l(1) m(1) have "l1 @ l2 = m1 @ m2" by simp
  then consider
    (left) u where "l1 = m1 @ u" "m2 = u @ l2"
    | (right) u where "m1 = l1 @ u" "l2 = u @ m2"
    by (auto simp: append_eq_append_conv2)
  then show ?thesis
  proof cases
    case left
    from d l(1) left have "distinct (m1 @ u @ l2)" by simp
    with m(2) l(3) have False by auto
    then show ?thesis ..
  next
    case right
    with l(2) have "a \<in> set m1" by simp
    with m(1,3) show ?thesis unfolding before_in_def by blast
  qed
qed

section \<open>Appending a leaf to the children of one node\<close>

lemma flatten_add_leaf:
  assumes ret: "flatten_tree st nodes d = Some out"
    and p: "st p = Some np"
    and r: "st r = Some nr" "node_children nr = []" "r \<noteq> p"
    and keys: "\<And>k nd. st k = Some nd \<Longrightarrow> symbol_id (symbol nd) = k"
    and dist: "distinct (map fst out)"
  shows "(symbol np \<notin> fst ` set out
            \<and> flatten_tree (st(p \<mapsto> np\<lparr>node_children := node_children np @ [r]\<rparr>)) nodes d
                = Some out)
       \<or> (\<exists>l1 l2 dp. out = l1 @ l2 \<and> (symbol np, dp) \<in> set l1
            \<and> flatten_tree (st(p \<mapsto> np\<lparr>node_children := node_children np @ [r]\<rparr>)) nodes d
                = Some (l1 @ [(symbol nr, Suc dp)] @ l2))"
proof -
  let ?st' = "st(p \<mapsto> np\<lparr>node_children := node_children np @ [r]\<rparr>)"
  let ?P = "\<lambda>st0 nodes d out. st0 = st \<longrightarrow> distinct (map fst out) \<longrightarrow>
      ((symbol np \<notin> fst ` set out \<and> flatten_tree ?st' nodes d = Some out)
       \<or> (\<exists>l1 l2 dp. out = l1 @ l2 \<and> (symbol np, dp) \<in> set l1
            \<and> flatten_tree ?st' nodes d = Some (l1 @ [(symbol nr, Suc dp)] @ l2)))"
  have "?P st nodes d out"
  proof (rule flatten_tree.raw_induct[where P = ?P, OF _ ret])
    fix f st0 nodes d out
    assume IH: "\<And>st0 nodes d out. f st0 nodes d = Some out \<Longrightarrow> ?P st0 nodes d out"
      and eq: "(case nodes of
                  [] \<Rightarrow> Some []
                | n # rest \<Rightarrow>
                    (case st0 n of
                       None \<Rightarrow> None
                     | Some nd \<Rightarrow>
                         Option.bind (f st0 (node_children nd) (d + 1)) (\<lambda>below.
                         Option.bind (f st0 rest d) (\<lambda>after.
                         Some ((symbol nd, d) # below @ after))))) = Some out"
    show "?P st0 nodes d out"
    proof (intro impI)
      assume st0: "st0 = st" and dist: "distinct (map fst out)"
      show "(symbol np \<notin> fst ` set out \<and> flatten_tree ?st' nodes d = Some out)
       \<or> (\<exists>l1 l2 dp. out = l1 @ l2 \<and> (symbol np, dp) \<in> set l1
            \<and> flatten_tree ?st' nodes d = Some (l1 @ [(symbol nr, Suc dp)] @ l2))"
      proof (cases nodes)
        case Nil
        with eq show ?thesis by (simp add: flatten_nil)
      next
        case (Cons n rest)
        with eq st0 obtain nd below after where
          n: "st n = Some nd" and
          bl: "f st (node_children nd) (d + 1) = Some below" and
          af: "f st rest d = Some after" and
          out: "out = (symbol nd, d) # below @ after"
          by (auto split: option.splits Option.bind_splits)
        from dist out have db: "distinct (map fst below)" and da: "distinct (map fst after)"
          and hd_below: "symbol nd \<notin> fst ` set below"
          and hd_after: "symbol nd \<notin> fst ` set after"
          and disj: "fst ` set below \<inter> fst ` set after = {}"
          by auto
        from IH[OF bl] db have B:
          "(symbol np \<notin> fst ` set below
              \<and> flatten_tree ?st' (node_children nd) (d + 1) = Some below)
           \<or> (\<exists>l1 l2 dp. below = l1 @ l2 \<and> (symbol np, dp) \<in> set l1
                \<and> flatten_tree ?st' (node_children nd) (d + 1)
                    = Some (l1 @ [(symbol nr, Suc dp)] @ l2))"
          by simp
        from IH[OF af] da have A:
          "(symbol np \<notin> fst ` set after \<and> flatten_tree ?st' rest d = Some after)
           \<or> (\<exists>l1 l2 dp. after = l1 @ l2 \<and> (symbol np, dp) \<in> set l1
                \<and> flatten_tree ?st' rest d = Some (l1 @ [(symbol nr, Suc dp)] @ l2))"
          by simp
        show ?thesis
        proof (cases "n = p")
          case True
          with n p have nd: "nd = np" by simp
          have B': "flatten_tree ?st' (node_children np) (d + 1) = Some below"
            using B
          proof
            assume "symbol np \<notin> fst ` set below
              \<and> flatten_tree ?st' (node_children nd) (d + 1) = Some below"
            with nd show ?thesis by simp
          next
            assume "\<exists>l1 l2 dp. below = l1 @ l2 \<and> (symbol np, dp) \<in> set l1
                \<and> flatten_tree ?st' (node_children nd) (d + 1)
                    = Some (l1 @ [(symbol nr, Suc dp)] @ l2)"
            then obtain l1 l2 dp where "below = l1 @ l2" "(symbol np, dp) \<in> set l1" by blast
            then have "symbol np \<in> fst ` set below" by force
            with hd_below nd show ?thesis by simp
          qed
          have A': "flatten_tree ?st' rest d = Some after"
            using A
          proof
            assume "symbol np \<notin> fst ` set after \<and> flatten_tree ?st' rest d = Some after"
            then show ?thesis by simp
          next
            assume "\<exists>l1 l2 dp. after = l1 @ l2 \<and> (symbol np, dp) \<in> set l1
                \<and> flatten_tree ?st' rest d = Some (l1 @ [(symbol nr, Suc dp)] @ l2)"
            then obtain l1 l2 dp where "after = l1 @ l2" "(symbol np, dp) \<in> set l1" by blast
            then have "symbol np \<in> fst ` set after" by force
            with hd_after nd show ?thesis by simp
          qed
          have leaf: "flatten_tree ?st' [r] (d + 1) = Some [(symbol nr, d + 1)]"
            using r by (intro flatten_leaf) simp_all
          from flatten_append[OF B' leaf]
          have kids: "flatten_tree ?st' (node_children np @ [r]) (d + 1)
              = Some (below @ [(symbol nr, d + 1)])" .
          have "flatten_tree ?st' (n # rest) d
              = Some ((symbol np, d) # (below @ [(symbol nr, d + 1)]) @ after)"
            using True kids A' by (simp add: flatten_cons)
          then have "flatten_tree ?st' nodes d
              = Some (((symbol np, d) # below) @ [(symbol nr, Suc d)] @ after)"
            using Cons by simp
          moreover have "out = ((symbol np, d) # below) @ after" using out nd by simp
          moreover have "(symbol np, d) \<in> set ((symbol np, d) # below)" by simp
          ultimately show ?thesis by blast
        next
          case False
          then have same: "?st' n = Some nd" using n by simp
          from False keys[OF n] keys[OF p] have sym_ne: "symbol nd \<noteq> symbol np" by auto
          from B show ?thesis
          proof
            assume b: "symbol np \<notin> fst ` set below
              \<and> flatten_tree ?st' (node_children nd) (d + 1) = Some below"
            from A show ?thesis
            proof
              assume a: "symbol np \<notin> fst ` set after \<and> flatten_tree ?st' rest d = Some after"
              from a b same have "flatten_tree ?st' (n # rest) d = Some out"
                using out by (simp add: flatten_cons)
              moreover have "symbol np \<notin> fst ` set out"
                using a b sym_ne out by auto
              ultimately show ?thesis using Cons by simp
            next
              assume "\<exists>l1 l2 dp. after = l1 @ l2 \<and> (symbol np, dp) \<in> set l1
                \<and> flatten_tree ?st' rest d = Some (l1 @ [(symbol nr, Suc dp)] @ l2)"
              then obtain l1 l2 dp where a: "after = l1 @ l2" "(symbol np, dp) \<in> set l1"
                "flatten_tree ?st' rest d = Some (l1 @ [(symbol nr, Suc dp)] @ l2)"
                by blast
              have "flatten_tree ?st' (n # rest) d
                  = Some ((symbol nd, d) # below @ (l1 @ [(symbol nr, Suc dp)] @ l2))"
                using same b a(3) by (simp add: flatten_cons)
              then have "flatten_tree ?st' nodes d
                  = Some (((symbol nd, d) # below @ l1) @ [(symbol nr, Suc dp)] @ l2)"
                using Cons by simp
              moreover have "out = ((symbol nd, d) # below @ l1) @ l2" using out a(1) by simp
              moreover have "(symbol np, dp) \<in> set ((symbol nd, d) # below @ l1)"
                using a(2) by simp
              ultimately show ?thesis by blast
            qed
          next
            assume "\<exists>l1 l2 dp. below = l1 @ l2 \<and> (symbol np, dp) \<in> set l1
                \<and> flatten_tree ?st' (node_children nd) (d + 1)
                    = Some (l1 @ [(symbol nr, Suc dp)] @ l2)"
            then obtain l1 l2 dp where b: "below = l1 @ l2" "(symbol np, dp) \<in> set l1"
              "flatten_tree ?st' (node_children nd) (d + 1)
                 = Some (l1 @ [(symbol nr, Suc dp)] @ l2)"
              by blast
            from b(1,2) have "symbol np \<in> fst ` set below" by force
            with disj have notin: "symbol np \<notin> fst ` set after" by auto
            have a: "flatten_tree ?st' rest d = Some after"
              using A
            proof
              assume "symbol np \<notin> fst ` set after \<and> flatten_tree ?st' rest d = Some after"
              then show ?thesis by simp
            next
              assume "\<exists>l1 l2 dp. after = l1 @ l2 \<and> (symbol np, dp) \<in> set l1
                  \<and> flatten_tree ?st' rest d = Some (l1 @ [(symbol nr, Suc dp)] @ l2)"
              then obtain l1 l2 dp where "after = l1 @ l2" "(symbol np, dp) \<in> set l1" by blast
              then have "symbol np \<in> fst ` set after" by force
              with notin show ?thesis by simp
            qed
            have "flatten_tree ?st' (n # rest) d
                = Some ((symbol nd, d) # (l1 @ [(symbol nr, Suc dp)] @ l2) @ after)"
              using same b(3) a by (simp add: flatten_cons)
            then have "flatten_tree ?st' nodes d
                = Some (((symbol nd, d) # l1) @ [(symbol nr, Suc dp)] @ (l2 @ after))"
              using Cons by simp
            moreover have "out = ((symbol nd, d) # l1) @ (l2 @ after)" using out b(1) by simp
            moreover have "(symbol np, dp) \<in> set ((symbol nd, d) # l1)" using b(2) by simp
            ultimately show ?thesis by blast
          qed
        qed
      qed
    qed
  qed
  with dist show ?thesis by simp
qed

section \<open>The store that build_symbol_tree returns\<close>

lemma new_node_map_fold:
  "foldl (\<lambda>m s. m(symbol_id s \<mapsto> \<lparr> symbol = s, node_children = [] \<rparr>)) m0 xs k =
     (case find (\<lambda>s. symbol_id s = k) (rev xs) of
        None \<Rightarrow> m0 k
      | Some s \<Rightarrow> Some \<lparr> symbol = s, node_children = [] \<rparr>)"
  by (induction xs rule: rev_induct) simp_all

lemma new_node_map_linked: "new_node_map syms = linked_store syms []"
  by (rule ext) (simp add: new_node_map_def linked_store_def new_node_map_fold split: option.splits)

lemma linked_store_dom:
  "(linked_store syms pre k = None) = (new_node_map syms k = None)"
  by (simp add: new_node_map_linked linked_store_def split: option.splits)

lemma parent_resolves_linked:
  "parent_resolves (linked_store syms pre) s = resolves syms s"
  by (simp add: resolves_def parent_resolves_def linked_store_dom split: option.splits)

lemma linked_store_snoc_root:
  assumes "\<not> resolves syms s"
  shows "linked_store syms (pre @ [s]) = linked_store syms pre"
  using assms by (intro ext) (simp add: linked_store_def split: option.splits)

lemma linked_store_snoc_child:
  assumes res: "resolves syms s" and par: "parent s = Some p"
    and nd: "linked_store syms pre p = Some parent_node"
  shows "linked_store syms (pre @ [s])
         = (linked_store syms pre)(p \<mapsto>
             parent_node\<lparr> node_children := node_children parent_node @ [symbol_id s] \<rparr>)"
proof (rule ext)
  fix k
  show "linked_store syms (pre @ [s]) k
        = ((linked_store syms pre)(p \<mapsto>
             parent_node\<lparr> node_children := node_children parent_node @ [symbol_id s] \<rparr>)) k"
  proof (cases "k = p")
    case True
    with res par nd show ?thesis
      by (auto simp: linked_store_def split: option.splits)
  next
    case False
    with par show ?thesis
      by (auto simp: linked_store_def split: option.splits)
  qed
qed

lemma link_symbol_linked:
  "link_symbol (linked_store syms pre, linked_roots syms pre) s
   = (linked_store syms (pre @ [s]), linked_roots syms (pre @ [s]))"
proof (cases "resolves syms s")
  case False
  then show ?thesis
    by (simp add: link_symbol_def Let_def parent_resolves_linked linked_store_snoc_root
        linked_roots_def)
next
  case True
  then obtain p where par: "parent s = Some p"
    by (auto simp: resolves_def parent_resolves_def split: option.splits)
  from True par have "new_node_map syms p \<noteq> None"
    by (simp add: resolves_def parent_resolves_def)
  then obtain parent_node where nd: "linked_store syms pre p = Some parent_node"
    using linked_store_dom[of syms pre p] by auto
  from True par nd show ?thesis
    by (simp add: link_symbol_def Let_def parent_resolves_linked
        linked_store_snoc_child[OF True par nd] linked_roots_def)
qed

lemma foldl_link_linked:
  "foldl link_symbol (linked_store syms pre, linked_roots syms pre) xs
   = (linked_store syms (pre @ xs), linked_roots syms (pre @ xs))"
  by (induction xs arbitrary: pre) (simp_all add: link_symbol_linked)

lemma build_symbol_tree_linked:
  "build_symbol_tree syms = (linked_store syms syms, linked_roots syms syms)"
  using foldl_link_linked[of syms "[]" syms]
  by (simp add: build_symbol_tree_def new_node_map_linked linked_roots_def)

section \<open>Lists with distinct ids and earlier parents\<close>

lemma find_distinct:
  assumes "distinct (map f xs)" and "x \<in> set xs"
  shows "find (\<lambda>y. f y = f x) xs = Some x"
  using assms by (induction xs) (auto simp: image_iff)

lemma linked_store_at:
  assumes "distinct (map symbol_id syms)" and "s \<in> set syms"
  shows "linked_store syms pre (symbol_id s)
         = Some \<lparr> symbol = s,
                  node_children =
                    map symbol_id
                      (filter (\<lambda>c. resolves syms c \<and> parent c = Some (symbol_id s)) pre) \<rparr>"
proof -
  from assms have "distinct (map symbol_id (rev syms))" "s \<in> set (rev syms)"
    by (simp_all add: rev_map[symmetric])
  then have "find (\<lambda>y. symbol_id y = symbol_id s) (rev syms) = Some s"
    by (rule find_distinct)
  then show ?thesis by (simp add: linked_store_def)
qed

lemma linked_store_keys:
  assumes "linked_store syms pre k = Some nd"
  shows "symbol_id (symbol nd) = k"
proof -
  from assms obtain s where f: "find (\<lambda>s. symbol_id s = k) (rev syms) = Some s"
    and nd: "symbol nd = s"
    by (auto simp: linked_store_def split: option.splits)
  from f have "symbol_id s = k" by (auto simp: find_Some_iff)
  with nd show ?thesis by simp
qed

lemma parents_earlier_parent:
  assumes "parents_earlier seen (pre @ s # suf)" and "parent s = Some p"
  shows "p \<in> set seen \<union> symbol_id ` set pre"
  using assms
proof (induction pre arbitrary: seen)
  case Nil
  then show ?case by simp
next
  case (Cons x pre)
  from Cons.prems(1) have "parents_earlier (symbol_id x # seen) (pre @ s # suf)" by simp
  from Cons.IH[OF this Cons.prems(2)] show ?case by auto
qed

lemma parents_earlier_prefix:
  assumes "parents_earlier seen (pre @ suf)"
  shows "parents_earlier seen pre"
  using assms by (induction pre arbitrary: seen) auto

lemma no_child_yet:
  assumes d: "distinct (map symbol_id (pre @ s # suf))"
    and pe: "parents_earlier [] (pre @ s # suf)"
  shows "filter (\<lambda>c. resolves syms c \<and> parent c = Some (symbol_id s)) pre = []"
proof -
  have "parent c \<noteq> Some (symbol_id s)" if c: "c \<in> set pre" for c
  proof
    assume eq: "parent c = Some (symbol_id s)"
    from c obtain l1 l2 where l: "pre = l1 @ c # l2" by (auto simp: in_set_conv_decomp)
    with pe have "parents_earlier [] (l1 @ c # (l2 @ s # suf))" by simp
    from parents_earlier_parent[OF this eq] have "symbol_id s \<in> symbol_id ` set l1" by simp
    with l have "symbol_id s \<in> symbol_id ` set pre" by auto
    with d show False by auto
  qed
  then show ?thesis by (auto simp: filter_empty_conv)
qed

section \<open>Flattening after each step of the linking loop\<close>

lemma flatten_linked_prefix:
  assumes d: "distinct (map symbol_id syms)" and pe: "parents_earlier [] syms"
  shows "syms = pre @ suf \<Longrightarrow>
     \<exists>out. flatten_tree (linked_store syms pre) (linked_roots syms pre) 0 = Some out
       \<and> mset (map fst out) = mset pre
       \<and> (\<forall>s\<in>set pre. \<forall>a\<in>set syms. resolves syms s \<and> parent s = Some (symbol_id a)
             \<longrightarrow> (\<exists>depth. before_in (a, depth) (s, Suc depth) out))
       \<and> (\<forall>s\<in>set pre. \<not> resolves syms s \<longrightarrow> (s, 0) \<in> set out)"
proof (induction pre arbitrary: suf rule: rev_induct)
  case Nil
  show ?case by (simp add: linked_roots_def flatten_nil)
next
  case (snoc s pre)
  from snoc.prems have split: "syms = pre @ s # suf" by simp
  from snoc.IH[OF split] obtain out where
    fl: "flatten_tree (linked_store syms pre) (linked_roots syms pre) 0 = Some out" and
    ms: "mset (map fst out) = mset pre" and
    rel: "\<forall>s\<in>set pre. \<forall>a\<in>set syms. resolves syms s \<and> parent s = Some (symbol_id a)
             \<longrightarrow> (\<exists>depth. before_in (a, depth) (s, Suc depth) out)" and
    top: "\<forall>s\<in>set pre. \<not> resolves syms s \<longrightarrow> (s, 0) \<in> set out"
    by blast
  have s_in: "s \<in> set syms" using split by simp
  have leaf: "linked_store syms pre (symbol_id s) = Some \<lparr> symbol = s, node_children = [] \<rparr>"
    using linked_store_at[OF d s_in, of pre] no_child_yet[of pre s suf syms] d pe split
    by simp
  have dist_pre: "distinct pre"
    using d split by (auto dest: distinct_map[THEN iffD1])
  have dist_out: "distinct (map fst out)"
    using ms dist_pre by (metis mset_eq_imp_distinct_iff)
  have set_out: "set (map fst out) = set pre"
    using ms by (metis set_mset_mset)
  show ?case
  proof (cases "resolves syms s")
    case False
    have st: "linked_store syms (pre @ [s]) = linked_store syms pre"
      using False by (rule linked_store_snoc_root)
    have roots: "linked_roots syms (pre @ [s]) = linked_roots syms pre @ [symbol_id s]"
      using False by (simp add: linked_roots_def)
    have "flatten_tree (linked_store syms pre) [symbol_id s] 0 = Some [(s, 0)]"
      using flatten_leaf[where st = "linked_store syms pre" and r = "symbol_id s"
          and nr = "\<lparr> symbol = s, node_children = [] \<rparr>" and d = 0] leaf
      by simp
    from flatten_append[OF fl this]
    have fl': "flatten_tree (linked_store syms (pre @ [s])) (linked_roots syms (pre @ [s])) 0
        = Some (out @ [(s, 0)])"
      by (simp add: st roots)
    have ms': "mset (map fst (out @ [(s, 0)])) = mset (pre @ [s])"
      using ms by simp
    have rel_old: "\<exists>depth. before_in (b, depth) (x, Suc depth) (out @ [(s, 0)])"
      if "x \<in> set pre" "b \<in> set syms" "resolves syms x" "parent x = Some (symbol_id b)" for x b
    proof -
      from rel that obtain depth where "before_in (b, depth) (x, Suc depth) out" by blast
      then have "before_in (b, depth) (x, Suc depth) (out @ [(s, 0)])"
        by (rule before_in_snoc)
      then show ?thesis ..
    qed
    have rel': "\<forall>x\<in>set (pre @ [s]). \<forall>a\<in>set syms.
          resolves syms x \<and> parent x = Some (symbol_id a)
             \<longrightarrow> (\<exists>depth. before_in (a, depth) (x, Suc depth) (out @ [(s, 0)]))"
      using rel_old False by auto
    have top': "\<forall>x\<in>set (pre @ [s]). \<not> resolves syms x \<longrightarrow> (x, 0) \<in> set (out @ [(s, 0)])"
      using top by auto
    from fl' ms' rel' top' show ?thesis by blast
  next
    case True
    then obtain p where par: "parent s = Some p"
      by (auto simp: resolves_def parent_resolves_def split: option.splits)
    from parents_earlier_parent[of "[]" pre s suf p] pe split par
    obtain a where a: "a \<in> set pre" "symbol_id a = p" by auto
    have a_in: "a \<in> set syms" using a(1) split by simp
    define np where "np = \<lparr> symbol = a, node_children = map symbol_id
        (filter (\<lambda>c. resolves syms c \<and> parent c = Some (symbol_id a)) pre) \<rparr>"
    have nd: "linked_store syms pre p = Some np"
      using linked_store_at[OF d a_in, of pre] a(2) by (simp add: np_def)
    have ne: "symbol_id s \<noteq> p"
      using d split a by auto
    have st: "linked_store syms (pre @ [s])
        = (linked_store syms pre)(p \<mapsto> np\<lparr> node_children := node_children np @ [symbol_id s] \<rparr>)"
      by (rule linked_store_snoc_child[OF True par nd])
    have roots: "linked_roots syms (pre @ [s]) = linked_roots syms pre"
      using True by (simp add: linked_roots_def)
    have seen: "symbol np \<in> fst ` set out"
      using set_out a(1) by (simp add: np_def)
    have keys: "\<And>k nd. linked_store syms pre k = Some nd \<Longrightarrow> symbol_id (symbol nd) = k"
      by (rule linked_store_keys)
    from flatten_add_leaf[where st = "linked_store syms pre" and p = p and np = np
        and r = "symbol_id s" and nr = "\<lparr> symbol = s, node_children = [] \<rparr>"
        and nodes = "linked_roots syms pre" and d = 0 and out = out,
        OF fl nd leaf _ ne keys dist_out] seen
    obtain l1 l2 dp where
      out: "out = l1 @ l2" and
      pos: "(a, dp) \<in> set l1" and
      fl': "flatten_tree (linked_store syms (pre @ [s])) (linked_roots syms (pre @ [s])) 0
          = Some (l1 @ [(s, Suc dp)] @ l2)"
      by (auto simp: st roots np_def)
    let ?out' = "l1 @ [(s, Suc dp)] @ l2"
    have ms': "mset (map fst ?out') = mset (pre @ [s])"
      using ms out by simp
    have rel_old: "\<exists>depth. before_in (b, depth) (x, Suc depth) ?out'"
      if "x \<in> set pre" "b \<in> set syms" "resolves syms x" "parent x = Some (symbol_id b)" for x b
    proof -
      from rel that obtain depth where "before_in (b, depth) (x, Suc depth) out" by blast
      then have "before_in (b, depth) (x, Suc depth) ?out'"
        unfolding out by (rule before_in_insert)
      then show ?thesis ..
    qed
    have rel_new: "\<exists>depth. before_in (b, depth) (s, Suc depth) ?out'"
      if "b \<in> set syms" "parent s = Some (symbol_id b)" for b
    proof -
      from that par a(2) have "symbol_id b = symbol_id a" by simp
      with d that(1) a_in have "b = a" by (auto simp: distinct_map inj_on_def)
      from before_in_new[OF pos, of "(s, Suc dp)" l2] this
      have "before_in (b, dp) (s, Suc dp) ?out'" by simp
      then show ?thesis ..
    qed
    have rel': "\<forall>x\<in>set (pre @ [s]). \<forall>b\<in>set syms.
          resolves syms x \<and> parent x = Some (symbol_id b)
             \<longrightarrow> (\<exists>depth. before_in (b, depth) (x, Suc depth) ?out')"
      using rel_old rel_new by auto
    have top': "\<forall>x\<in>set (pre @ [s]). \<not> resolves syms x \<longrightarrow> (x, 0) \<in> set ?out'"
      using top True out by auto
    from fl' ms' rel' top' show ?thesis by blast
  qed
qed

section \<open>The test on the parent field, on a list with earlier parents\<close>

lemma new_node_map_member:
  assumes "a \<in> set syms"
  shows "new_node_map syms (symbol_id a) \<noteq> None"
proof -
  from assms have "find (\<lambda>s. symbol_id s = symbol_id a) (rev syms) \<noteq> None"
    by (auto simp: find_None_iff)
  then show ?thesis
    by (auto simp: new_node_map_linked linked_store_def split: option.splits)
qed

lemma resolves_child_of:
  assumes "a \<in> set syms"
  shows "(resolves syms s \<and> parent s = Some (symbol_id a)) = child_of s a"
  using new_node_map_member[OF assms]
  by (auto simp: resolves_def parent_resolves_def child_of_def)

lemma resolves_has_parent:
  assumes pe: "parents_earlier [] syms" and s: "s \<in> set syms"
  shows "resolves syms s = has_parent s"
proof (cases "parent s")
  case None
  then show ?thesis by (simp add: resolves_def parent_resolves_def has_parent_def)
next
  case (Some p)
  from s obtain pre suf where split: "syms = pre @ s # suf"
    by (auto simp: in_set_conv_decomp)
  from parents_earlier_parent[of "[]" pre s suf p] pe split Some
  obtain a where a: "a \<in> set pre" "symbol_id a = p" by auto
  from a(1) split have "a \<in> set syms" by simp
  from new_node_map_member[OF this] a(2) have "new_node_map syms p \<noteq> None" by simp
  with Some show ?thesis by (simp add: resolves_def parent_resolves_def has_parent_def)
qed

lemmas hierarchy_defs =
  outline_def build_symbol_tree_def new_node_map_def link_symbol_def parent_resolves_def
  flatten_nil flatten_cons Let_def

section \<open>Claims that the code does not meet\<close>

text \<open>
  C1. The claim asks for \<open>S.qualified_name = P.qualified_name + "." + S.name\<close>. On the
  file \<^verbatim>\<open>class A: class B: def m(self): pass\<close> (three nested levels) the extractor gives
  the method \<open>m\<close> the qualified name \<open>B.m\<close>, although its parent \<open>B\<close> has the
  qualified name \<open>A.B\<close>: line 89 joins the parent's short name, not its qualified name.
\<close>

theorem C1_nested_qualified_name:
  "map_result (map (\<lambda>s. (name s, qualified_name s, parent s)))
     (parse_file ascii_db (\<lambda>_ _. nested_tree) nested_source (str ''t.py'') ''python'')
   = Inr [(str ''A'', str ''A'', None),
          (str ''B'', str ''A.B'', Some (str ''t-py::A'')),
          (str ''m'', str ''B.m'', Some (str ''t-py::A.B''))]"
  by (simp add: nested_tree_def nested_source_def PYTHON_SPEC_def python_text_defs
      extractor_defs)

text \<open>
  C2. The claim asks for pairwise distinct identifiers in one result. A file that defines
  the function \<open>f\<close> twice yields two symbols with the identifier \<open>t-py::f\<close>.
\<close>

theorem C2_same_name_same_id:
  "map_result (map symbol_id)
     (parse_file ascii_db (\<lambda>_ _. twice_tree) twice_source (str ''t.py'') ''python'')
   = Inr [str ''t-py::f'', str ''t-py::f'']"
  by (simp add: twice_tree_def twice_source_def PYTHON_SPEC_def python_text_defs
      extractor_defs)

text \<open>
  C3. The claim takes the docstring from the first statement of the body only. In
  \<^verbatim>\<open>def f(): x = 1; "late"\<close> the first statement is an assignment, and the extractor
  still returns the later string statement as the docstring: the loop of
  \<^verbatim>\<open>_extract_python_docstring\<close> goes on to the next child when a statement is not a
  string.
\<close>

theorem C3_later_string_is_docstring:
  "map_result (map (\<lambda>s. (name s, docstring s)))
     (parse_file ascii_db (\<lambda>_ _. late_string_tree) late_string_source (str ''t.py'') ''python'')
   = Inr [(str ''f'', str ''late'')]"
  by (simp add: late_string_tree_def late_string_source_def PYTHON_SPEC_def python_text_defs
      extractor_defs)

text \<open>
  C4. The claim removes the whole marker \<^verbatim>\<open>//!\<close>. The test for \<^verbatim>\<open>//\<close> stands before
  the test for \<^verbatim>\<open>//!\<close> in \<^verbatim>\<open>_clean_comment_markers\<close>, so only two characters are
  dropped and the exclamation mark stays.
\<close>

theorem C4_bang_marker_left:
  "clean_comment_markers (str ''//! Text'') = str ''! Text''"
  by (simp add: python_text_defs clean_comment_markers_def clean_comment_line_def Let_def)

text \<open>
  C7. The claim lets no node with a parse error in its subtree contribute a symbol. In
  \<^verbatim>\<open>X = [1, 2 3]\<close> a comma is missing, so the list holds an error and the
  assignment node carries the error flag; the extractor still emits the constant \<open>X\<close>:
  only \<^verbatim>\<open>_extract_symbol\<close> tests \<^verbatim>\<open>has_error\<close>, \<^verbatim>\<open>_extract_constant\<close> does not. Of
  the tree, \<^verbatim>\<open>_extract_constant\<close> reads the type and the span of the assignment node
  and of its left side only.
\<close>

theorem C7_constant_from_error_node:
  "has_error stray_item_assignment
   \<and> stray_item_assignment \<in> set (subnodes stray_item_tree)
   \<and> map_result (map (\<lambda>s. (name s, kind s, byte_offset s, signature s)))
       (parse_file ascii_db (\<lambda>_ _. stray_item_tree) stray_item_source (str ''t.py'') ''python'')
     = Inr [(str ''X'', ''constant'', 0, str ''X = [1, 2 3]'')]"
  by (simp add: stray_item_tree_def stray_item_assignment_def stray_item_source_def
      PYTHON_SPEC_def python_text_defs extractor_defs)

section \<open>Claims that the code meets\<close>

text \<open>
  C6. Kind promotion. Every symbol that \<^verbatim>\<open>parse_file\<close> returns is emitted at some node
  of the syntax tree. Whatever node emitted it: if the type of the node is mapped to the
  kind \<open>k\<close> in \<open>symbol_node_types\<close>, then a symbol with a non-null parent has the kind
  \<open>method\<close> when \<open>k\<close> is \<open>function\<close> (and \<open>k\<close> otherwise), and a symbol with a null
  parent has the kind \<open>k\<close> unchanged.
\<close>

theorem C6_kind_promotion:
  assumes reg: "LANGUAGE_REGISTRY lang = Some spec"
    and enc: "encode content = Inr source_bytes"
    and run: "parse_file db get_parser content filename lang = Inr out"
    and s: "s \<in> set out"
  shows "(\<exists>m\<in>set (subnodes (get_parser (ts_language spec) source_bytes)).
            emitted_at db spec source_bytes filename lang m s)
       \<and> (\<forall>m k. emitted_at db spec source_bytes filename lang m s
              \<and> symbol_node_types spec (ntype m) = Some k
            \<longrightarrow> (parent s \<noteq> None \<longrightarrow> kind s = (if k = ''function'' then ''method'' else k))
              \<and> (parent s = None \<longrightarrow> kind s = k))"
proof
  from run have "walk_tree db (get_parser (ts_language spec) source_bytes) spec source_bytes
      filename lang [] None [] = Inr out"
    by (simp add: parse_file_walk[OF reg enc])
  from walk_emitted(1)[OF this] s
  show "\<exists>m\<in>set (subnodes (get_parser (ts_language spec) source_bytes)).
          emitted_at db spec source_bytes filename lang m s"
    by auto
next
  show "\<forall>m k. emitted_at db spec source_bytes filename lang m s
              \<and> symbol_node_types spec (ntype m) = Some k
            \<longrightarrow> (parent s \<noteq> None \<longrightarrow> kind s = (if k = ''function'' then ''method'' else k))
              \<and> (parent s = None \<longrightarrow> kind s = k)"
  proof (intro allI impI, elim conjE)
    fix m k
    assume em: "emitted_at db spec source_bytes filename lang m s"
      and k: "symbol_node_types spec (ntype m) = Some k"
    from em consider
      (sym) p prevs where "extract_symbol m spec source_bytes filename lang p prevs = Inr (Some s)"
      | (const) "extract_constant db m spec source_bytes filename lang = Inr (Some s)"
      unfolding emitted_at_def by blast
    then show "(parent s \<noteq> None \<longrightarrow> kind s = (if k = ''function'' then ''method'' else k))
              \<and> (parent s = None \<longrightarrow> kind s = k)"
    proof cases
      case sym
      from extract_symbol_kind[OF sym] k show ?thesis
        by (cases p) auto
    next
      case const
      from extract_constant_result[OF const] have "ntype m = ''assignment''" by simp
      with registry_assignment_unmapped[OF reg] k show ?thesis by simp
    qed
  qed
qed

text \<open>
  The theorem at the method \<open>m\<close> of the nested classes: its parent is set and its kind
  is \<open>method\<close>.
\<close>

theorem C6_kind_promotion_witness:
  "LANGUAGE_REGISTRY ''python'' = Some PYTHON_SPEC
   \<and> parse_file ascii_db (\<lambda>_ _. nested_tree) nested_source (str ''t.py'') ''python''
       = Inr [nested_A, nested_B, nested_m]
   \<and> nested_m \<in> set [nested_A, nested_B, nested_m]
   \<and> parent nested_m \<noteq> None \<and> kind nested_m = ''method''
   \<and> (\<exists>m\<in>set (subnodes nested_tree).
         emitted_at ascii_db PYTHON_SPEC (bytes ''class A:\<newline>    class B:\<newline>        def m(self):\<newline>            pass\<newline>'')
           (str ''t.py'') ''python'' m nested_m)"
proof -
  have reg: "LANGUAGE_REGISTRY ''python'' = Some PYTHON_SPEC"
    by (simp add: LANGUAGE_REGISTRY_def)
  have enc: "encode nested_source
      = Inr (bytes ''class A:\<newline>    class B:\<newline>        def m(self):\<newline>            pass\<newline>'')"
    by (simp add: nested_source_def python_text_defs)
  have s: "nested_m \<in> set [nested_A, nested_B, nested_m]" by simp
  have k: "parent nested_m \<noteq> None" "kind nested_m = ''method''"
    by (simp_all add: nested_m_def)
  from C6_kind_promotion[OF reg enc nested_parse s]
  have "\<exists>m\<in>set (subnodes nested_tree).
         emitted_at ascii_db PYTHON_SPEC (bytes ''class A:\<newline>    class B:\<newline>        def m(self):\<newline>            pass\<newline>'')
           (str ''t.py'') ''python'' m nested_m"
    by (rule conjunct1)
  with reg nested_parse s k show ?thesis by (intro conjI)
qed

text \<open>
  C5. A Python assignment node whose left side is a simple identifier, with decodable
  texts. With no enclosing symbol the walker appends exactly one symbol at this node,
  of kind \<open>constant\<close>, with parent \<open>None\<close>, the identifier as its name and the
  assignment text (stripped of surrounding white space, which the text of an assignment
  node does not have) cut to 100 characters as its signature, if the identifier is
  entirely upper-case or is mixed case, begins with an upper-case letter and contains an
  underscore; otherwise it appends nothing at this node. With an enclosing symbol it
  appends nothing at this node. In each case the walk goes on into the children.
\<close>

theorem C5_top_level_constant:
  assumes t: "ntype n = ''assignment''"
    and l: "child_by_field_name n ''left'' = Some left"
    and i: "ntype left = ''identifier''"
    and nm: "node_text source_bytes left = Inr name'"
    and tx: "node_text source_bytes n = Inr text"
  shows "(accepted_constant_name db name' \<longrightarrow>
            (\<exists>c. kind c = ''constant'' \<and> parent c = None \<and> name c = name'
               \<and> signature c = take 100 (strip text)
               \<and> walk_tree db n PYTHON_SPEC source_bytes filename lang symbols None prevs
                   = walk_children db (children n) PYTHON_SPEC source_bytes filename lang
                       (symbols @ [c]) None []))
       \<and> (\<not> accepted_constant_name db name' \<longrightarrow>
            walk_tree db n PYTHON_SPEC source_bytes filename lang symbols None prevs
              = walk_children db (children n) PYTHON_SPEC source_bytes filename lang
                  symbols None [])
       \<and> walk_tree db n PYTHON_SPEC source_bytes filename lang symbols (Some p) prevs
           = walk_children db (children n) PYTHON_SPEC source_bytes filename lang
               symbols (Some p) []"
proof -
  have unmapped: "symbol_node_types PYTHON_SPEC (ntype n) = None"
    using t by (simp add: PYTHON_SPEC_def)
  have pattern: "ntype n \<in> set (constant_patterns PYTHON_SPEC)"
    using t by (simp add: PYTHON_SPEC_def)
  have step1: "symbol_step n PYTHON_SPEC source_bytes filename lang symbols q prevs
      = Inr (symbols, q)" for q
    using unmapped by (simp add: symbol_step_def)
  have inside: "constant_step db n PYTHON_SPEC source_bytes filename lang symbols (Some p)
      = Inr symbols"
    by (simp add: constant_step_def)
  show ?thesis
  proof (intro conjI impI)
    assume a: "accepted_constant_name db name'"
    define c where "c = \<lparr> symbol_id = make_symbol_id filename name', file = filename,
      name = name', qualified_name = name', kind = ''constant'', language = lang,
      signature = take 100 (strip text), docstring = [], summary = [], decorators = [],
      search_keywords = [], parent = None, line = fst (start_point n) + 1,
      end_line = fst (end_point n) + 1, byte_offset = start_byte n,
      byte_length = end_byte n - start_byte n \<rparr>"
    have "extract_constant db n PYTHON_SPEC source_bytes filename lang = Inr (Some c)"
      using t l i nm tx a
      by (simp add: extract_constant_def constant_name_accepted c_def)
    then have "constant_step db n PYTHON_SPEC source_bytes filename lang symbols None
        = Inr (symbols @ [c])"
      using pattern by (simp add: constant_step_def)
    then have "walk_tree db n PYTHON_SPEC source_bytes filename lang symbols None prevs
        = walk_children db (children n) PYTHON_SPEC source_bytes filename lang
            (symbols @ [c]) None []"
      by (simp add: walk_tree_unfold step1)
    moreover have "kind c = ''constant''" "parent c = None" "name c = name'"
      "signature c = take 100 (strip text)"
      by (simp_all add: c_def)
    ultimately show "\<exists>c. kind c = ''constant'' \<and> parent c = None \<and> name c = name'
               \<and> signature c = take 100 (strip text)
               \<and> walk_tree db n PYTHON_SPEC source_bytes filename lang symbols None prevs
                   = walk_children db (children n) PYTHON_SPEC source_bytes filename lang
                       (symbols @ [c]) None []"
      by blast
  next
    assume a: "\<not> accepted_constant_name db name'"
    have "extract_constant db n PYTHON_SPEC source_bytes filename lang = Inr None"
      using t l i nm a
      by (simp add: extract_constant_def constant_name_accepted)
    then have "constant_step db n PYTHON_SPEC source_bytes filename lang symbols None
        = Inr symbols"
      by (simp add: constant_step_def)
    then show "walk_tree db n PYTHON_SPEC source_bytes filename lang symbols None prevs
        = walk_children db (children n) PYTHON_SPEC source_bytes filename lang symbols None []"
      by (simp add: walk_tree_unfold step1)
  next
    show "walk_tree db n PYTHON_SPEC source_bytes filename lang symbols (Some p) prevs
        = walk_children db (children n) PYTHON_SPEC source_bytes filename lang
            symbols (Some p) []"
      by (simp add: walk_tree_unfold step1 inside)
  qed
qed

text \<open>
  The theorem at \<open>MAX_SIZE = 100\<close>: the name is accepted; at top level the walk of the
  assignment node returns the one constant, inside the function \<open>f\<close> it returns nothing.
\<close>

theorem C5_top_level_constant_witness:
  "ntype max_size_assignment = ''assignment''
   \<and> child_by_field_name max_size_assignment ''left'' = Some max_size_left
   \<and> ntype max_size_left = ''identifier''
   \<and> node_text (bytes ''MAX_SIZE = 100\<newline>'') max_size_left = Inr (str ''MAX_SIZE'')
   \<and> node_text (bytes ''MAX_SIZE = 100\<newline>'') max_size_assignment = Inr (str ''MAX_SIZE = 100'')
   \<and> accepted_constant_name ascii_db (str ''MAX_SIZE'')
   \<and> walk_tree ascii_db max_size_assignment PYTHON_SPEC (bytes ''MAX_SIZE = 100\<newline>'')
        (str ''t.py'') ''python'' [] None [] = Inr [max_size_constant]
   \<and> walk_tree ascii_db max_size_assignment PYTHON_SPEC (bytes ''MAX_SIZE = 100\<newline>'')
        (str ''t.py'') ''python'' [] (Some max_size_f) [] = Inr []"
proof -
  let ?src = "bytes ''MAX_SIZE = 100\<newline>''"
  have t: "ntype max_size_assignment = ''assignment''"
    by (simp add: max_size_assignment_def)
  have l: "child_by_field_name max_size_assignment ''left'' = Some max_size_left"
    by (simp add: max_size_assignment_def max_size_left_def child_by_field_name_def)
  have i: "ntype max_size_left = ''identifier''"
    by (simp add: max_size_left_def)
  have nm: "node_text ?src max_size_left = Inr (str ''MAX_SIZE'')"
    by (simp add: max_size_left_def node_text_def python_text_defs)
  have tx: "node_text ?src max_size_assignment = Inr (str ''MAX_SIZE = 100'')"
    by (simp add: max_size_assignment_def node_text_def python_text_defs)
  have a: "accepted_constant_name ascii_db (str ''MAX_SIZE'')"
    by (simp add: accepted_constant_name_def entirely_upper_case_def ascii_db_def str_def)
  have kids: "walk_children ascii_db (children max_size_assignment) PYTHON_SPEC ?src
      (str ''t.py'') ''python'' symbols q [] = Inr symbols" for symbols q
    by (simp add: max_size_assignment_def PYTHON_SPEC_def symbol_step_def constant_step_def)
  note inst = C5_top_level_constant[OF t l i nm tx, of ascii_db "str ''t.py''" "''python''" "[]" "[]"
      max_size_f]
  have top: "walk_tree ascii_db max_size_assignment PYTHON_SPEC ?src (str ''t.py'') ''python''
      [] None [] = Inr [max_size_constant]"
    by (simp add: fixture_defs PYTHON_SPEC_def python_text_defs extractor_defs)
  from inst have inner: "walk_tree ascii_db max_size_assignment PYTHON_SPEC ?src (str ''t.py'')
      ''python'' [] (Some max_size_f) [] = Inr []"
    by (simp add: kids)
  from t l i nm tx a top inner show ?thesis by (intro conjI)
qed

text \<open>
  C8. The failure condition that the specification calls \<open>InvalidEncoding\<close> is the
  exception \<^verbatim>\<open>UnicodeDecodeError\<close> of the strict \<^verbatim>\<open>decode("utf-8")\<close>, the value
  \<open>Inl UnicodeDecodeError\<close> of the model. The list \<open>walk_ranges\<close> holds every byte range
  that the extraction decodes: the names (also those of a Go \<^verbatim>\<open>type_spec\<close>), the
  signatures, the docstrings (a Python string statement, or the comments before the
  node), the decorators, and the two texts of a constant. If one range of the list is
  not well-formed UTF-8, \<^verbatim>\<open>parse_file\<close> raises this error: it returns no symbol list at
  all, so no symbol carries a substituted name, signature or docstring. If all ranges
  are well-formed, \<^verbatim>\<open>parse_file\<close> returns a symbol list, so this error is the only
  outcome of an invalid range and has no other cause.
\<close>

theorem C8_decoding_failure_surfaces:
  assumes reg: "LANGUAGE_REGISTRY lang = Some spec"
    and enc: "encode content = Inr source_bytes"
  shows "(list_ex (invalid_range source_bytes)
            (walk_ranges db (get_parser (ts_language spec) source_bytes) spec source_bytes
               filename lang None [])
          \<longrightarrow> parse_file db get_parser content filename lang = Inl UnicodeDecodeError)
       \<and> (\<not> list_ex (invalid_range source_bytes)
              (walk_ranges db (get_parser (ts_language spec) source_bytes) spec source_bytes
                 filename lang None [])
          \<longrightarrow> (\<exists>out. parse_file db get_parser content filename lang = Inr out))"
proof -
  let ?tree = "get_parser (ts_language spec) source_bytes"
  let ?run = "walk_tree db ?tree spec source_bytes filename lang [] None []"
  have run: "parse_file db get_parser content filename lang = ?run"
    by (simp add: parse_file_walk[OF reg enc])
  have raises: "isl ?run = list_ex (invalid_range source_bytes)
      (walk_ranges db ?tree spec source_bytes filename lang None [])"
    by (rule walk_raises(1))
  show ?thesis
  proof (cases ?run)
    case (Inl e)
    with walk_Inl(1) have "e = UnicodeDecodeError" by blast
    with Inl raises run show ?thesis by simp
  next
    case (Inr out)
    with raises run show ?thesis by simp
  qed
qed

lemmas range_defs =
  enclosing_symbol_def symbol_ranges_def name_ranges_def signature_range_def docstring_ranges_def python_docstring_ranges_def
  expression_statement_docstring_range_def decorator_ranges_def constant_ranges_def
  node_range_def invalid_range_def

text \<open>
  The theorem at three files. In the first the name node ends inside a two-byte
  character (the byte \<open>0xC3\<close> alone is not well-formed), in the second the string node of
  the docstring does; both raise. In the third all ranges are well-formed.
\<close>

theorem C8_decoding_failure_surfaces_witness:
  "LANGUAGE_REGISTRY ''python'' = Some PYTHON_SPEC
   \<and> encode cut_name_source = Inr cut_name_bytes
   \<and> walk_ranges ascii_db cut_name_tree PYTHON_SPEC cut_name_bytes (str ''t.py'') ''python''
       None [] = [(4, 5)]
   \<and> invalid_range cut_name_bytes (4, 5)
   \<and> parse_file ascii_db (\<lambda>_ _. cut_name_tree) cut_name_source (str ''t.py'') ''python''
       = Inl UnicodeDecodeError
   \<and> encode cut_docstring_source = Inr cut_docstring_bytes
   \<and> walk_ranges ascii_db cut_docstring_tree PYTHON_SPEC cut_docstring_bytes (str ''t.py'')
       ''python'' None [] = [(4, 5), (0, 13), (13, 15)]
   \<and> invalid_range cut_docstring_bytes (13, 15)
   \<and> parse_file ascii_db (\<lambda>_ _. cut_docstring_tree) cut_docstring_source (str ''t.py'')
       ''python'' = Inl UnicodeDecodeError
   \<and> encode max_size_source
       = Inr (bytes ''MAX_SIZE = 100\<newline>def f():\<newline>    MAX_SIZE = 100\<newline>'')
   \<and> walk_ranges ascii_db max_size_tree PYTHON_SPEC
       (bytes ''MAX_SIZE = 100\<newline>def f():\<newline>    MAX_SIZE = 100\<newline>'')
       (str ''t.py'') ''python'' None [] = [(0, 8), (0, 14), (19, 20), (15, 28)]
   \<and> (\<exists>out. parse_file ascii_db (\<lambda>_ _. max_size_tree) max_size_source (str ''t.py'')
         ''python'' = Inr out)"
proof -
  have reg: "LANGUAGE_REGISTRY ''python'' = Some PYTHON_SPEC"
    by (simp add: LANGUAGE_REGISTRY_def)
  have enc1: "encode cut_name_source = Inr cut_name_bytes"
    by (simp add: cut_name_source_def cut_name_bytes_def encode_def str_def bytes_def)
  have r1: "walk_ranges ascii_db cut_name_tree PYTHON_SPEC cut_name_bytes (str ''t.py'')
      ''python'' None [] = [(4, 5)]"
    by (simp add: cut_name_tree_def cut_name_function_def cut_name_bytes_def range_defs
        PYTHON_SPEC_def python_text_defs extractor_defs)
  have i1: "invalid_range cut_name_bytes (4, 5)"
    by (simp add: cut_name_bytes_def invalid_range_def slice_def bytes_def)
  from r1 i1 have bad1: "list_ex (invalid_range cut_name_bytes)
      (walk_ranges ascii_db ((\<lambda>_ _. cut_name_tree) (ts_language PYTHON_SPEC) cut_name_bytes)
         PYTHON_SPEC cut_name_bytes (str ''t.py'') ''python'' None [])"
    by simp
  from C8_decoding_failure_surfaces[OF reg enc1, of ascii_db "\<lambda>_ _. cut_name_tree"
      "str ''t.py''"] bad1
  have p1: "parse_file ascii_db (\<lambda>_ _. cut_name_tree) cut_name_source (str ''t.py'') ''python''
       = Inl UnicodeDecodeError"
    by blast
  have enc2: "encode cut_docstring_source = Inr cut_docstring_bytes"
    by (simp add: cut_docstring_source_def cut_docstring_bytes_def encode_def str_def
        bytes_def)
  have r2: "walk_ranges ascii_db cut_docstring_tree PYTHON_SPEC cut_docstring_bytes
      (str ''t.py'') ''python'' None [] = [(4, 5), (0, 13), (13, 15)]"
    by (simp add: cut_docstring_tree_def cut_docstring_bytes_def range_defs
        PYTHON_SPEC_def python_text_defs extractor_defs)
  have i2: "invalid_range cut_docstring_bytes (13, 15)"
    by (simp add: cut_docstring_bytes_def invalid_range_def slice_def bytes_def)
  from r2 i2 have bad2: "list_ex (invalid_range cut_docstring_bytes)
      (walk_ranges ascii_db
         ((\<lambda>_ _. cut_docstring_tree) (ts_language PYTHON_SPEC) cut_docstring_bytes)
         PYTHON_SPEC cut_docstring_bytes (str ''t.py'') ''python'' None [])"
    by simp
  from C8_decoding_failure_surfaces[OF reg enc2, of ascii_db "\<lambda>_ _. cut_docstring_tree"
      "str ''t.py''"] bad2
  have p2: "parse_file ascii_db (\<lambda>_ _. cut_docstring_tree) cut_docstring_source
      (str ''t.py'') ''python'' = Inl UnicodeDecodeError"
    by blast
  let ?bytes3 = "bytes ''MAX_SIZE = 100\<newline>def f():\<newline>    MAX_SIZE = 100\<newline>''"
  have enc3: "encode max_size_source = Inr ?bytes3"
    by (simp add: max_size_source_def python_text_defs)
  have r3: "walk_ranges ascii_db max_size_tree PYTHON_SPEC ?bytes3 (str ''t.py'') ''python''
      None [] = [(0, 8), (0, 14), (19, 20), (15, 28)]"
    by (simp add: max_size_tree_def range_defs PYTHON_SPEC_def python_text_defs
        extractor_defs)
  have ok3: "\<not> list_ex (invalid_range ?bytes3)
      (walk_ranges ascii_db ((\<lambda>_ _. max_size_tree) (ts_language PYTHON_SPEC) ?bytes3)
         PYTHON_SPEC ?bytes3 (str ''t.py'') ''python'' None [])"
    by (simp add: r3) (simp add: invalid_range_def slice_def bytes_def)
  from C8_decoding_failure_surfaces[OF reg enc3, of ascii_db "\<lambda>_ _. max_size_tree"
      "str ''t.py''"] ok3
  have p3: "\<exists>out. parse_file ascii_db (\<lambda>_ _. max_size_tree) max_size_source (str ''t.py'')
      ''python'' = Inr out"
    by blast
  from reg enc1 r1 i1 p1 enc2 r2 i2 p2 enc3 r3 p3 show ?thesis by (intro conjI)
qed

text \<open>
  C10. A symbol of kind \<open>constant\<close> in the result of \<^verbatim>\<open>parse_file\<close> was returned by
  \<^verbatim>\<open>_extract_constant\<close> at a node whose type is \<open>assignment\<close>, and the language is
  Python (the only registry entry with \<open>assignment\<close> among its \<open>constant_patterns\<close>).
  So for JavaScript, TypeScript, Go, Rust and Java no returned symbol has the kind
  \<open>constant\<close>, whatever the source.
\<close>

theorem C10_constants_only_from_assignment:
  assumes reg: "LANGUAGE_REGISTRY lang = Some spec"
    and enc: "encode content = Inr source_bytes"
    and run: "parse_file db get_parser content filename lang = Inr out"
    and s: "s \<in> set out"
  shows "(kind s = ''constant'' \<longrightarrow>
            lang = ''python''
            \<and> (\<exists>m\<in>set (subnodes (get_parser (ts_language spec) source_bytes)).
                  ntype m = ''assignment''
                  \<and> extract_constant db m spec source_bytes filename lang = Inr (Some s)))
       \<and> (lang \<in> {''javascript'', ''typescript'', ''go'', ''rust'', ''java''} \<longrightarrow>
            kind s \<noteq> ''constant'')"
proof -
  from run have "walk_tree db (get_parser (ts_language spec) source_bytes) spec source_bytes
      filename lang [] None [] = Inr out"
    by (simp add: parse_file_walk[OF reg enc])
  from walk_emitted(1)[OF this] s obtain m where
    m: "m \<in> set (subnodes (get_parser (ts_language spec) source_bytes))" and
    em: "emitted_at db spec source_bytes filename lang m s"
    by auto
  have first: "lang = ''python''
      \<and> (\<exists>m\<in>set (subnodes (get_parser (ts_language spec) source_bytes)).
            ntype m = ''assignment''
            \<and> extract_constant db m spec source_bytes filename lang = Inr (Some s))"
    if c: "kind s = ''constant''"
  proof -
    from em consider
      (sym) p prevs where "extract_symbol m spec source_bytes filename lang p prevs = Inr (Some s)"
      | (const) "ntype m \<in> set (constant_patterns spec)"
          "extract_constant db m spec source_bytes filename lang = Inr (Some s)"
      unfolding emitted_at_def by blast
    then show ?thesis
    proof cases
      case sym
      from extract_symbol_Some[OF sym] obtain k where
        k: "symbol_node_types spec (ntype m) = Some k" and
        kd: "kind s = (case p of Some ps \<Rightarrow> if k = ''function'' then ''method'' else k
                              | None \<Rightarrow> k)"
        by blast
      from registry_kinds[OF reg k] have "k \<noteq> ''constant''" .
      with kd c show ?thesis
        by (cases p) (simp_all split: if_splits)
    next
      case const
      from extract_constant_result[OF const(2)] have a: "ntype m = ''assignment''" by simp
      with const(1) registry_assignment_pattern[OF reg] have "lang = ''python''" by simp
      with a const(2) m show ?thesis by blast
    qed
  qed
  have second: "kind s \<noteq> ''constant''"
    if l: "lang \<in> {''javascript'', ''typescript'', ''go'', ''rust'', ''java''}"
  proof
    assume "kind s = ''constant''"
    from first[OF this] have "lang = ''python''" by simp
    with l show False by simp
  qed
  from first second show ?thesis by blast
qed

text \<open>
  The theorem at the Python file with the top-level \<open>MAX_SIZE = 100\<close>, and at the
  JavaScript file with \<open>const MAX_RETRY = 5\<close>, whose only symbol is the function.
\<close>

theorem C10_constants_only_from_assignment_witness:
  "LANGUAGE_REGISTRY ''python'' = Some PYTHON_SPEC
   \<and> parse_file ascii_db (\<lambda>_ _. max_size_tree) max_size_source (str ''t.py'') ''python''
       = Inr [max_size_constant, max_size_f]
   \<and> kind max_size_constant = ''constant''
   \<and> (\<exists>m\<in>set (subnodes max_size_tree).
         ntype m = ''assignment''
         \<and> extract_constant ascii_db m PYTHON_SPEC
              (bytes ''MAX_SIZE = 100\<newline>def f():\<newline>    MAX_SIZE = 100\<newline>'')
              (str ''t.py'') ''python'' = Inr (Some max_size_constant))
   \<and> LANGUAGE_REGISTRY ''javascript'' = Some JAVASCRIPT_SPEC
   \<and> parse_file ascii_db (\<lambda>_ _. max_retry_tree) max_retry_source (str ''app.js'') ''javascript''
       = Inr [max_retry_f]
   \<and> kind max_retry_f \<noteq> ''constant''"
proof -
  have reg: "LANGUAGE_REGISTRY ''python'' = Some PYTHON_SPEC"
    by (simp add: LANGUAGE_REGISTRY_def)
  have enc: "encode max_size_source
      = Inr (bytes ''MAX_SIZE = 100\<newline>def f():\<newline>    MAX_SIZE = 100\<newline>'')"
    by (simp add: max_size_source_def python_text_defs)
  have s: "max_size_constant \<in> set [max_size_constant, max_size_f]" by simp
  have k: "kind max_size_constant = ''constant''" by (simp add: max_size_constant_def)
  from C10_constants_only_from_assignment[OF reg enc max_size_parse s] k
  have py: "\<exists>m\<in>set (subnodes max_size_tree).
         ntype m = ''assignment''
         \<and> extract_constant ascii_db m PYTHON_SPEC
              (bytes ''MAX_SIZE = 100\<newline>def f():\<newline>    MAX_SIZE = 100\<newline>'')
              (str ''t.py'') ''python'' = Inr (Some max_size_constant)"
    by blast
  have reg': "LANGUAGE_REGISTRY ''javascript'' = Some JAVASCRIPT_SPEC"
    by (simp add: LANGUAGE_REGISTRY_def)
  have enc': "encode max_retry_source
      = Inr (bytes ''function f() {}\<newline>const MAX_RETRY = 5;\<newline>'')"
    by (simp add: max_retry_source_def python_text_defs)
  have s': "max_retry_f \<in> set [max_retry_f]" by simp
  from C10_constants_only_from_assignment[OF reg' enc' max_retry_parse s']
  have js: "kind max_retry_f \<noteq> ''constant''" by simp
  from reg max_size_parse k py reg' max_retry_parse js show ?thesis by (intro conjI)
qed

section \<open>A claim that holds with one change\<close>

text \<open>
  C9, as stated. The claim takes a list with pairwise distinct ids in which every parent
  field that is not \<^verbatim>\<open>None\<close> is the id of a symbol strictly earlier in the list, and
  asks that a symbol whose parent is in the batch be a child of that parent, one level
  deeper. The test of \<^verbatim>\<open>build_symbol_tree\<close> is
  \<^verbatim>\<open>if symbol.parent and symbol.parent in node_map\<close>: a parent field that is the empty
  string is false in Python, so a symbol whose parent is the symbol with the empty id
  becomes a root at depth 0, and that parent gets no child.
\<close>

theorem C9_empty_parent_is_root:
  "distinct (map symbol_id [empty_id_first, empty_id_second])
   \<and> parents_earlier [] [empty_id_first, empty_id_second]
   \<and> parent empty_id_second = Some (symbol_id empty_id_first)
   \<and> outline [empty_id_first, empty_id_second]
       = Some [(empty_id_first, 0), (empty_id_second, 0)]
   \<and> fst (build_symbol_tree [empty_id_first, empty_id_second]) (symbol_id empty_id_first)
       = Some \<lparr> symbol = empty_id_first, node_children = [] \<rparr>
   \<and> snd (build_symbol_tree [empty_id_first, empty_id_second])
       = [symbol_id empty_id_first, symbol_id empty_id_second]"
  by (simp add: hierarchy_defs empty_id_first_def empty_id_second_def str_def)

text \<open>
  C9, amended. Let the ids of \<open>syms\<close> be pairwise distinct and let every parent field
  that is set be the id of a symbol strictly earlier in the list. Then
  \<^verbatim>\<open>flatten_tree(build_symbol_tree(syms))\<close> returns, and its result \<open>out\<close>

    \<^item> holds every symbol of \<open>syms\<close> exactly once (the symbols of \<open>out\<close> are those of
      \<open>syms\<close> as multisets, and no symbol is repeated);
    \<^item> holds every symbol whose parent field is the non-empty id of a symbol \<open>a\<close> of the
      batch at the depth of \<open>a\<close> plus one, and the children of the node of \<open>a\<close> are
      exactly these symbols, in the order of \<open>syms\<close>;
    \<^item> holds every symbol whose parent field is \<^verbatim>\<open>None\<close> or the empty string at depth
      0, and the list of roots is exactly these symbols, in the order of \<open>syms\<close>;
    \<^item> holds every symbol before all of its descendants.
\<close>

theorem C9_outline:
  assumes d: "distinct (map symbol_id syms)" and pe: "parents_earlier [] syms"
  shows "\<exists>out. outline syms = Some out
     \<and> mset (map fst out) = mset syms
     \<and> distinct (map fst out)
     \<and> (\<forall>s\<in>set syms. \<forall>a\<in>set syms. child_of s a
           \<longrightarrow> (\<exists>depth. (a, depth) \<in> set out \<and> (s, Suc depth) \<in> set out))
     \<and> (\<forall>a\<in>set syms. fst (build_symbol_tree syms) (symbol_id a)
           = Some \<lparr> symbol = a,
                    node_children = map symbol_id (filter (\<lambda>c. child_of c a) syms) \<rparr>)
     \<and> (\<forall>s\<in>set syms. \<not> has_parent s \<longrightarrow> (s, 0) \<in> set out)
     \<and> snd (build_symbol_tree syms) = map symbol_id (filter (\<lambda>s. \<not> has_parent s) syms)
     \<and> (\<forall>s a. descendant_of syms s a \<longrightarrow> before_in a s (map fst out))"
proof -
  from flatten_linked_prefix[OF d pe, of syms "[]"] obtain out where
    fl: "flatten_tree (linked_store syms syms) (linked_roots syms syms) 0 = Some out" and
    ms: "mset (map fst out) = mset syms" and
    rel: "\<forall>s\<in>set syms. \<forall>a\<in>set syms. resolves syms s \<and> parent s = Some (symbol_id a)
             \<longrightarrow> (\<exists>depth. before_in (a, depth) (s, Suc depth) out)" and
    top: "\<forall>s\<in>set syms. \<not> resolves syms s \<longrightarrow> (s, 0) \<in> set out"
    by auto
  have run: "outline syms = Some out"
    using fl by (simp add: outline_def build_symbol_tree_linked)
  have dist_syms: "distinct syms"
    using d by (auto dest: distinct_map[THEN iffD1])
  have dist_out: "distinct (map fst out)"
    using ms dist_syms by (metis mset_eq_imp_distinct_iff)
  have link: "\<exists>depth. before_in (a, depth) (s, Suc depth) out"
    if "s \<in> set syms" "a \<in> set syms" "child_of s a" for s a
    using rel that resolves_child_of[OF that(2), of s] by blast
  have depth: "\<forall>s\<in>set syms. \<forall>a\<in>set syms. child_of s a
           \<longrightarrow> (\<exists>depth. (a, depth) \<in> set out \<and> (s, Suc depth) \<in> set out)"
  proof (intro ballI impI)
    fix s a
    assume "s \<in> set syms" "a \<in> set syms" "child_of s a"
    from link[OF this] obtain depth where "before_in (a, depth) (s, Suc depth) out" ..
    then have "(a, depth) \<in> set out \<and> (s, Suc depth) \<in> set out"
      unfolding before_in_def by auto
    then show "\<exists>depth. (a, depth) \<in> set out \<and> (s, Suc depth) \<in> set out" ..
  qed
  have kids: "\<forall>a\<in>set syms. fst (build_symbol_tree syms) (symbol_id a)
           = Some \<lparr> symbol = a,
                    node_children = map symbol_id (filter (\<lambda>c. child_of c a) syms) \<rparr>"
  proof
    fix a
    assume a: "a \<in> set syms"
    have "filter (\<lambda>c. resolves syms c \<and> parent c = Some (symbol_id a)) syms
        = filter (\<lambda>c. child_of c a) syms"
      by (rule filter_cong) (simp_all add: resolves_child_of[OF a])
    with linked_store_at[OF d a, of syms]
    show "fst (build_symbol_tree syms) (symbol_id a)
           = Some \<lparr> symbol = a,
                    node_children = map symbol_id (filter (\<lambda>c. child_of c a) syms) \<rparr>"
      by (simp add: build_symbol_tree_linked)
  qed
  have "filter (\<lambda>s. \<not> resolves syms s) syms = filter (\<lambda>s. \<not> has_parent s) syms"
    by (rule filter_cong) (simp_all add: resolves_has_parent[OF pe])
  then have roots: "snd (build_symbol_tree syms)
      = map symbol_id (filter (\<lambda>s. \<not> has_parent s) syms)"
    by (simp add: build_symbol_tree_linked linked_roots_def)
  have top': "\<forall>s\<in>set syms. \<not> has_parent s \<longrightarrow> (s, 0) \<in> set out"
    using top resolves_has_parent[OF pe] by blast
  have order: "before_in a s (map fst out)" if "descendant_of syms s a" for s a
    using that
  proof (induction rule: descendant_of.induct)
    case (child s a)
    from link[OF this] obtain depth where "before_in (a, depth) (s, Suc depth) out" ..
    from before_in_map[OF this, of fst] show ?case by simp
  next
    case (below s b a)
    from before_in_trans[OF dist_out below.IH(2) below.IH(1)] show ?case .
  qed
  from run ms dist_out depth kids top' roots order show ?thesis by blast
qed

text \<open>
  The theorem at the list of the class \<open>A\<close>, the function \<open>f\<close> and the class \<open>A.B\<close>
  (the child of \<open>A\<close>): the outline puts \<open>A.B\<close> below \<open>A\<close>, before \<open>f\<close>.
\<close>

theorem C9_outline_witness:
  "distinct (map symbol_id [nested_A, max_size_f, nested_B])
   \<and> parents_earlier [] [nested_A, max_size_f, nested_B]
   \<and> outline [nested_A, max_size_f, nested_B]
       = Some [(nested_A, 0), (nested_B, 1), (max_size_f, 0)]
   \<and> (\<exists>out. outline [nested_A, max_size_f, nested_B] = Some out
         \<and> mset (map fst out) = mset [nested_A, max_size_f, nested_B])"
proof -
  have d: "distinct (map symbol_id [nested_A, max_size_f, nested_B])"
    by (simp add: nested_A_def max_size_f_def nested_B_def str_def)
  have pe: "parents_earlier [] [nested_A, max_size_f, nested_B]"
    by (simp add: nested_A_def max_size_f_def nested_B_def str_def)
  have run: "outline [nested_A, max_size_f, nested_B]
       = Some [(nested_A, 0), (nested_B, 1), (max_size_f, 0)]"
    by (simp add: hierarchy_defs nested_A_def max_size_f_def nested_B_def str_def)
  from C9_outline[OF d pe]
  have "\<exists>out. outline [nested_A, max_size_f, nested_B] = Some out
         \<and> mset (map fst out) = mset [nested_A, max_size_f, nested_B]"
    by blast
  with d pe run show ?thesis by (intro conjI)
qed

end
